theory Spec2Isabelle
  imports Complex_Main
begin

section \<open>Numbers and exceptions\<close>

text \<open>
  The learners of \<^verbatim>\<open>coba/learners.py\<close> compute with Python floats. The embedding reads
  a float as an exact real number: rounding error, overflow and NaN are outside the model,
  while everything the interpreter checks is inside it. A division by zero raises
  \<^verbatim>\<open>ZeroDivisionError\<close>, a subtraction from \<^verbatim>\<open>None\<close> raises \<^verbatim>\<open>TypeError\<close>, a missing
  dictionary key raises \<^verbatim>\<open>KeyError\<close>, \<^verbatim>\<open>min\<close>, \<^verbatim>\<open>max\<close>, \<^verbatim>\<open>math.log\<close>, \<^verbatim>\<open>math.sqrt\<close> and
  \<^verbatim>\<open>list.index\<close> raise \<^verbatim>\<open>ValueError\<close>, and a list index out of range raises
  \<^verbatim>\<open>IndexError\<close>. These are the only exceptions the modelled code can raise; the module
  defines no exception class of its own.
\<close>

datatype error = KeyError | TypeError | ZeroDivisionError | ValueError | IndexError

definition py_div :: "real \<Rightarrow> real \<Rightarrow> error + real" where
  "py_div x y = (if y = 0 then Inl ZeroDivisionError else Inr (x / y))"

text \<open>A list comprehension whose element expression may raise: the first failure wins.\<close>

fun comprehension :: "('a \<Rightarrow> error + 'b) \<Rightarrow> 'a list \<Rightarrow> error + 'b list" where
  "comprehension g [] = Inr []"
| "comprehension g (x # xs) =
     (case g x of
        Inl e \<Rightarrow> Inl e
      | Inr v \<Rightarrow> (case comprehension g xs of Inl e \<Rightarrow> Inl e | Inr vs \<Rightarrow> Inr (v # vs)))"

definition py_min :: "real list \<Rightarrow> error + real" where
  "py_min xs = (case xs of [] \<Rightarrow> Inl ValueError | y # ys \<Rightarrow> Inr (fold min ys y))"

definition py_max :: "real list \<Rightarrow> error + real" where
  "py_max xs = (case xs of [] \<Rightarrow> Inl ValueError | y # ys \<Rightarrow> Inr (fold max ys y))"

definition py_index :: "'a list \<Rightarrow> nat \<Rightarrow> error + 'a" where
  "py_index xs i = (if i < length xs then Inr (xs ! i) else Inl IndexError)"

text \<open>
  \<^verbatim>\<open>round(x, 4)\<close>: the nearest multiple of \<open>1/10000\<close>, a tie going to the even multiple.
\<close>

definition py_round4 :: "real \<Rightarrow> real" where
  "py_round4 x =
     (let y = x * 10000; n = \<lfloor>y\<rfloor>; r = y - of_int n
      in of_int (if r < 1 / 2 then n else if 1 / 2 < r then n + 1
                 else if even n then n else n + 1) / 10000)"

section \<open>CorralLearner: the log-barrier solve\<close>

text \<open>
  \<^verbatim>\<open>_log_barrier_omd\<close> closes over \<^verbatim>\<open>self._ps\<close>, \<^verbatim>\<open>self._etas\<close> and \<^verbatim>\<open>losses\<close>; the
  model passes the three lists. \<^verbatim>\<open>zip\<close> of three lists is \<open>zip ps (zip etas losses)\<close>.

  \<^verbatim>\<open>f  = lambda l: float(sum([ 1/((1/p) + eta*(loss-l)) for p, eta, loss in zip(...)]))\<close>
  \<^verbatim>\<open>df = lambda l: float(sum([ eta/((1/p) + eta*(loss-l))**2 for p, eta, loss in zip(...)]))\<close>
  \<^verbatim>\<open>denom_zeros = [ ((-1/p)-(eta*loss))/-eta for p, eta, loss in zip(...) ]\<close>
\<close>

definition f_term :: "real \<Rightarrow> real \<times> real \<times> real \<Rightarrow> error + real" where
  "f_term l = (\<lambda>(p, eta, loss).
     case py_div 1 p of
       Inl e \<Rightarrow> Inl e
     | Inr ip \<Rightarrow> py_div 1 (ip + eta * (loss - l)))"

definition f :: "real list \<Rightarrow> real list \<Rightarrow> real list \<Rightarrow> real \<Rightarrow> error + real" where
  "f ps etas losses l =
     (case comprehension (f_term l) (zip ps (zip etas losses)) of
        Inl e \<Rightarrow> Inl e
      | Inr ts \<Rightarrow> Inr (sum_list ts))"

definition df_term :: "real \<Rightarrow> real \<times> real \<times> real \<Rightarrow> error + real" where
  "df_term l = (\<lambda>(p, eta, loss).
     case py_div 1 p of
       Inl e \<Rightarrow> Inl e
     | Inr ip \<Rightarrow> py_div eta ((ip + eta * (loss - l))\<^sup>2))"

definition df :: "real list \<Rightarrow> real list \<Rightarrow> real list \<Rightarrow> real \<Rightarrow> error + real" where
  "df ps etas losses l =
     (case comprehension (df_term l) (zip ps (zip etas losses)) of
        Inl e \<Rightarrow> Inl e
      | Inr ts \<Rightarrow> Inr (sum_list ts))"

definition denom_zero :: "real \<times> real \<times> real \<Rightarrow> error + real" where
  "denom_zero = (\<lambda>(p, eta, loss).
     case py_div (- 1) p of
       Inl e \<Rightarrow> Inl e
     | Inr nip \<Rightarrow> py_div (nip - eta * loss) (- eta))"

text \<open>
  The loop of \<^verbatim>\<open>newtons_zero\<close>:
  \<^verbatim>\<open>
  while True:
      i += 1
      if df(x) == 0: print(...)
      x -= (f(x)-1)/df(x)
      if round(f(x),precision) == 1: return x
      if (i % 30000) == 0: print(i)
  \<close>
  One pass through the body returns, raises, or goes round again with the new \<open>x\<close>.
  The counter \<open>i\<close> only feeds a progress print; the loop has no other exit than the
  \<^verbatim>\<open>return\<close> and an exception. A run that never leaves the loop is the value \<open>None\<close>.
\<close>

datatype 'a loop_exit = Return 'a | Raise error | Continue real

definition newton_body ::
  "real list \<Rightarrow> real list \<Rightarrow> real list \<Rightarrow> real \<Rightarrow> real loop_exit" where
  "newton_body ps etas losses x =
     (case df ps etas losses x of
        Inl e \<Rightarrow> Raise e
      | Inr d0 \<Rightarrow>
     (case f ps etas losses x of
        Inl e \<Rightarrow> Raise e
      | Inr fx \<Rightarrow>
     (case df ps etas losses x of
        Inl e \<Rightarrow> Raise e
      | Inr d \<Rightarrow>
     (case py_div (fx - 1) d of
        Inl e \<Rightarrow> Raise e
      | Inr q \<Rightarrow>
     (case f ps etas losses (x - q) of
        Inl e \<Rightarrow> Raise e
      | Inr fx' \<Rightarrow>
          if py_round4 fx' = 1 then Return (x - q) else Continue (x - q))))))"

partial_function (option) newton_loop ::
  "real list \<Rightarrow> real list \<Rightarrow> real list \<Rightarrow> nat \<Rightarrow> real \<Rightarrow> (error + real) option" where
  "newton_loop ps etas losses i x =
     (case newton_body ps etas losses x of
        Return y \<Rightarrow> Some (Inr y)
      | Raise e \<Rightarrow> Some (Inl e)
      | Continue x' \<Rightarrow> newton_loop ps etas losses (i + 1) x')"

declare newton_loop.simps [code]

text \<open>
  \<^verbatim>\<open>newtons_zero(l, r)\<close>: the bracket is rejected (\<^verbatim>\<open>return None\<close>) when
  \<^verbatim>\<open>(f(l+.0001)-1) * (f(r-.00001)-1) >= 0\<close>; otherwise the loop starts at the midpoint.
\<close>

definition newtons_zero ::
  "real list \<Rightarrow> real list \<Rightarrow> real list \<Rightarrow> real \<Rightarrow> real \<Rightarrow> (error + real option) option" where
  "newtons_zero ps etas losses l r =
     (case f ps etas losses (l + 1 / 10000) of
        Inl e \<Rightarrow> Some (Inl e)
      | Inr fl \<Rightarrow>
     (case f ps etas losses (r - 1 / 100000) of
        Inl e \<Rightarrow> Some (Inl e)
      | Inr fr \<Rightarrow>
          if (fl - 1) * (fr - 1) \<ge> 0 then Some (Inr None)
          else (case newton_loop ps etas losses 0 ((l + r) / 2) of
                  None \<Rightarrow> None
                | Some (Inl e) \<Rightarrow> Some (Inl e)
                | Some (Inr x) \<Rightarrow> Some (Inr (Some x)))))"

text \<open>
  \<^verbatim>\<open>
  for l_brack, r_brack in zip(brackets[:-1], brackets[1:]):
      lmbda = newtons_zero(l_brack, r_brack)
      if lmbda is not None: break
  \<close>
\<close>

fun search_brackets ::
  "real list \<Rightarrow> real list \<Rightarrow> real list \<Rightarrow> (real \<times> real) list \<Rightarrow> (error + real option) option" where
  "search_brackets ps etas losses [] = Some (Inr None)"
| "search_brackets ps etas losses ((l, r) # bs) =
     (case newtons_zero ps etas losses l r of
        None \<Rightarrow> None
      | Some (Inl e) \<Rightarrow> Some (Inl e)
      | Some (Inr (Some x)) \<Rightarrow> Some (Inr (Some x))
      | Some (Inr None) \<Rightarrow> search_brackets ps etas losses bs)"

text \<open>
  \<^verbatim>\<open>brackets = list(sorted(filter(lambda z: min_loss <= z and z <= max_loss,
                                   set(denom_zeros + [min_loss, max_loss]))))\<close>
\<close>

definition brackets :: "real list \<Rightarrow> real \<Rightarrow> real \<Rightarrow> real list" where
  "brackets denom_zeros min_loss max_loss =
     sort (remdups (filter (\<lambda>z. min_loss \<le> z \<and> z \<le> max_loss)
                           (denom_zeros @ [min_loss, max_loss])))"

text \<open>
  \<^verbatim>\<open>b not in denom_zeros and round(f(b),precision) == 1\<close>, for \<open>b\<close> the least and the
  greatest loss: \<^verbatim>\<open>and\<close> does not evaluate \<open>f\<close> when \<open>b\<close> is a pole.
\<close>

definition boundary_root ::
  "real list \<Rightarrow> real list \<Rightarrow> real list \<Rightarrow> real list \<Rightarrow> real \<Rightarrow> error + bool" where
  "boundary_root ps etas losses denom_zeros b =
     (if b \<in> set denom_zeros then Inr False
      else (case f ps etas losses b of Inl e \<Rightarrow> Inl e | Inr v \<Rightarrow> Inr (py_round4 v = 1)))"

text \<open>
  The choice of \<^verbatim>\<open>lmbda\<close>, lines 617 to 630: the common loss when all losses are equal,
  else a boundary that already solves the equation, else the first bracket whose Newton
  search returns; \<open>Inr None\<close> when every bracket was rejected.
\<close>

definition find_lmbda ::
  "real list \<Rightarrow> real list \<Rightarrow> real list \<Rightarrow> (error + real option) option" where
  "find_lmbda ps etas losses =
     (case comprehension denom_zero (zip ps (zip etas losses)) of
        Inl e \<Rightarrow> Some (Inl e)
      | Inr denom_zeros \<Rightarrow>
     (case py_min losses of
        Inl e \<Rightarrow> Some (Inl e)
      | Inr min_loss \<Rightarrow>
     (case py_max losses of
        Inl e \<Rightarrow> Some (Inl e)
      | Inr max_loss \<Rightarrow>
          if min_loss = max_loss then Some (Inr (Some min_loss))
          else
     (case boundary_root ps etas losses denom_zeros min_loss of
        Inl e \<Rightarrow> Some (Inl e)
      | Inr True \<Rightarrow> Some (Inr (Some min_loss))
      | Inr False \<Rightarrow>
     (case boundary_root ps etas losses denom_zeros max_loss of
        Inl e \<Rightarrow> Some (Inl e)
      | Inr True \<Rightarrow> Some (Inr (Some max_loss))
      | Inr False \<Rightarrow>
          (let bs = brackets denom_zeros min_loss max_loss
           in search_brackets ps etas losses (zip (butlast bs) (tl bs))))))))"

text \<open>
  The returned comprehension, line 638:
  \<^verbatim>\<open>[ max(1/((1/p) + eta*(loss-lmbda)),.00001) for p, eta, loss in zip(...)]\<close>.
  With \<^verbatim>\<open>lmbda\<close> still \<^verbatim>\<open>None\<close> the code has printed its diagnostics and goes on to this
  line, where \<^verbatim>\<open>loss-lmbda\<close> raises \<^verbatim>\<open>TypeError\<close> for the first element.
\<close>

definition weight_term :: "real option \<Rightarrow> real \<times> real \<times> real \<Rightarrow> error + real" where
  "weight_term lmbda = (\<lambda>(p, eta, loss).
     case py_div 1 p of
       Inl e \<Rightarrow> Inl e
     | Inr ip \<Rightarrow>
         (case lmbda of
            None \<Rightarrow> Inl TypeError
          | Some lam \<Rightarrow>
              (case py_div 1 (ip + eta * (loss - lam)) of
                 Inl e \<Rightarrow> Inl e
               | Inr w \<Rightarrow> Inr (max w (1 / 100000)))))"

definition log_barrier_omd ::
  "real list \<Rightarrow> real list \<Rightarrow> real list \<Rightarrow> (error + real list) option" where
  "log_barrier_omd ps etas losses =
     (case find_lmbda ps etas losses of
        None \<Rightarrow> None
      | Some (Inl e) \<Rightarrow> Some (Inl e)
      | Some (Inr lmbda) \<Rightarrow> Some (comprehension (weight_term lmbda) (zip ps (zip etas losses))))"

section \<open>RandomLearner\<close>

text \<open>
  \<^verbatim>\<open>return [1/len(actions)] * len(actions)\<close>; \<^verbatim>\<open>learn\<close> is \<^verbatim>\<open>pass\<close>. The learner has no
  state.
\<close>

definition random_predict :: "'k \<Rightarrow> 'c \<Rightarrow> 'a list \<Rightarrow> error + real list" where
  "random_predict key context actions =
     (case py_div 1 (real (length actions)) of
        Inl e \<Rightarrow> Inl e
      | Inr u \<Rightarrow> Inr (replicate (length actions) u))"

definition random_learn :: "'k \<Rightarrow> 'c \<Rightarrow> 'a \<Rightarrow> real \<Rightarrow> real \<Rightarrow> error option" where
  "random_learn key context action reward probability = None"

section \<open>EpsilonLearner\<close>

text \<open>
  \<^verbatim>\<open>_N\<close> and \<^verbatim>\<open>_Q\<close> are \<^verbatim>\<open>defaultdict(int)\<close>: a lookup of an absent key gives \<open>0\<close>, so
  both are total functions that start at \<open>0\<close>. The values of \<^verbatim>\<open>_Q\<close> are declared
  \<^verbatim>\<open>Optional[float]\<close> and the code tests them against \<^verbatim>\<open>None\<close>; the model keeps the
  option. A context may be \<^verbatim>\<open>None\<close>, and \<^verbatim>\<open>_key\<close> puts \<^verbatim>\<open>None\<close> in its place when
  \<^verbatim>\<open>include_context\<close> is false.
\<close>

record ('c, 'a) epsilon_learner =
  eps_epsilon :: real
  eps_include_context :: bool
  eps_N :: "'c option \<times> 'a \<Rightarrow> nat"
  eps_Q :: "'c option \<times> 'a \<Rightarrow> real option"

definition epsilon_init :: "real \<Rightarrow> bool \<Rightarrow> ('c, 'a) epsilon_learner" where
  "epsilon_init epsilon include_context =
     \<lparr>eps_epsilon = epsilon, eps_include_context = include_context,
      eps_N = (\<lambda>_. 0), eps_Q = (\<lambda>_. Some 0)\<rparr>"

definition eps_key :: "('c, 'a) epsilon_learner \<Rightarrow> 'c option \<Rightarrow> 'a \<Rightarrow> 'c option \<times> 'a" where
  "eps_key st context action =
     (if eps_include_context st then (context, action) else (None, action))"

text \<open>
  \<^verbatim>\<open>max_value = None if set(values) == {None} else max(v for v in values if v is not None)\<close>
  \<^verbatim>\<open>max_indexes = [i for i in range(len(values)) if values[i]==max_value]\<close>
  \<^verbatim>\<open>[ int(i in max_indexes)/len(max_indexes) ... for i in range(len(actions))]\<close>
  are shared by EpsilonLearner and UcbTunedLearner.
\<close>

definition max_value :: "real option list \<Rightarrow> error + real option" where
  "max_value values =
     (if set values = {None} then Inr None
      else (case py_max (map the (filter (\<lambda>v. v \<noteq> None) values)) of
              Inl e \<Rightarrow> Inl e
            | Inr m \<Rightarrow> Inr (Some m)))"

definition max_indexes :: "real option list \<Rightarrow> real option \<Rightarrow> nat list" where
  "max_indexes values mv = filter (\<lambda>i. values ! i = mv) [0..<length values]"

definition greedy_share :: "nat list \<Rightarrow> nat \<Rightarrow> error + real" where
  "greedy_share mi i = py_div (if i \<in> set mi then 1 else 0) (real (length mi))"

definition epsilon_predict ::
  "'k \<Rightarrow> 'c option \<Rightarrow> 'a list \<Rightarrow> ('c, 'a) epsilon_learner \<Rightarrow> error + real list" where
  "epsilon_predict key context actions st =
     (let keys = map (eps_key st context) actions;
          values = map (eps_Q st) keys
      in case max_value values of
           Inl e \<Rightarrow> Inl e
         | Inr mv \<Rightarrow>
        (let mi = max_indexes values mv
         in case py_div 1 (real (length actions)) of
              Inl e \<Rightarrow> Inl e
            | Inr u \<Rightarrow>
           (let prob_selected_randomly = replicate (length actions) (u * eps_epsilon st)
            in case comprehension
                      (\<lambda>i. case greedy_share mi i of
                              Inl e \<Rightarrow> Inl e
                            | Inr q \<Rightarrow> Inr (q * (1 - eps_epsilon st)))
                      [0..<length actions] of
                 Inl e \<Rightarrow> Inl e
               | Inr prob_selected_greedily \<Rightarrow>
                   Inr (map (\<lambda>(p1, p2). p1 + p2)
                          (zip prob_selected_randomly prob_selected_greedily)))))"

definition epsilon_learn ::
  "'k \<Rightarrow> 'c option \<Rightarrow> 'a \<Rightarrow> real \<Rightarrow> real \<Rightarrow> ('c, 'a) epsilon_learner \<Rightarrow> ('c, 'a) epsilon_learner" where
  "epsilon_learn key context action reward probability st =
     (let sa_key = eps_key st context action;
          alpha = 1 / (real (eps_N st sa_key) + 1);
          old_Q = (case eps_Q st sa_key of None \<Rightarrow> 0 | Some q \<Rightarrow> q)
      in st\<lparr>eps_Q := (eps_Q st)(sa_key := Some ((1 - alpha) * old_Q + alpha * reward)),
             eps_N := (eps_N st)(sa_key := eps_N st sa_key + 1)\<rparr>)"

section \<open>UcbTunedLearner\<close>

text \<open>
  The class \<^verbatim>\<open>OnlineVariance\<close> of \<^verbatim>\<open>coba.statistics\<close> is not part of the sources at
  hand. The learner only calls its constructor, \<^verbatim>\<open>update\<close> and \<^verbatim>\<open>variance\<close>, which the
  model takes as parameters.
\<close>

record 'v online_variance =
  ov_new :: 'v
  ov_update :: "'v \<Rightarrow> real \<Rightarrow> 'v"
  ov_variance :: "'v \<Rightarrow> real"

text \<open>
  \<^verbatim>\<open>_s\<close> and \<^verbatim>\<open>_v\<close> are \<^verbatim>\<open>defaultdict\<close>s, \<^verbatim>\<open>_m\<close> is a plain dictionary whose keys the code
  tests with \<^verbatim>\<open>in\<close>.
\<close>

record ('a, 'v) ucb_learner =
  ucb_init_a :: nat
  ucb_t :: nat
  ucb_s :: "'a \<Rightarrow> nat"
  ucb_m :: "'a \<rightharpoonup> real"
  ucb_v :: "'a \<Rightarrow> 'v"

definition ucb_init :: "'v online_variance \<Rightarrow> ('a, 'v) ucb_learner" where
  "ucb_init ov =
     \<lparr>ucb_init_a = 0, ucb_t = 0, ucb_s = (\<lambda>_. 0), ucb_m = Map.empty,
      ucb_v = (\<lambda>_. ov_new ov)\<rparr>"

definition py_log :: "real \<Rightarrow> error + real" where
  "py_log x = (if x \<le> 0 then Inl ValueError else Inr (ln x))"

definition py_sqrt :: "real \<Rightarrow> error + real" where
  "py_sqrt x = (if x < 0 then Inl ValueError else Inr (sqrt x))"

text \<open>\<^verbatim>\<open>_Var_R_UCB\<close>: \<^verbatim>\<open>var + math.sqrt(2*ln(t)/s)\<close>.\<close>

definition Var_R_UCB :: "'v online_variance \<Rightarrow> ('a, 'v) ucb_learner \<Rightarrow> 'a \<Rightarrow> error + real" where
  "Var_R_UCB ov st action =
     (case py_log (real (ucb_t st)) of
        Inl e \<Rightarrow> Inl e
      | Inr lt \<Rightarrow>
     (case py_div (2 * lt) (real (ucb_s st action)) of
        Inl e \<Rightarrow> Inl e
      | Inr q \<Rightarrow>
     (case py_sqrt q of
        Inl e \<Rightarrow> Inl e
      | Inr r \<Rightarrow> Inr (ov_variance ov (ucb_v st action) + r))))"

text \<open>\<^verbatim>\<open>_Avg_R_UCB\<close>: \<^verbatim>\<open>math.sqrt(ln(n)/n_j * min(1/4,V_j))\<close>, \<open>V_j\<close> computed first.\<close>

definition Avg_R_UCB :: "'v online_variance \<Rightarrow> ('a, 'v) ucb_learner \<Rightarrow> 'a \<Rightarrow> error + real" where
  "Avg_R_UCB ov st action =
     (case Var_R_UCB ov st action of
        Inl e \<Rightarrow> Inl e
      | Inr V_j \<Rightarrow>
     (case py_log (real (ucb_t st)) of
        Inl e \<Rightarrow> Inl e
      | Inr ln_n \<Rightarrow>
     (case py_div ln_n (real (ucb_s st action)) of
        Inl e \<Rightarrow> Inl e
      | Inr q \<Rightarrow> py_sqrt (q * min (1 / 4) V_j))))"

definition ucb_value :: "'v online_variance \<Rightarrow> ('a, 'v) ucb_learner \<Rightarrow> 'a \<Rightarrow> error + real option" where
  "ucb_value ov st a =
     (case ucb_m st a of
        None \<Rightarrow> Inr None
      | Some m_a \<Rightarrow>
          (case Avg_R_UCB ov st a of
             Inl e \<Rightarrow> Inl e
           | Inr u \<Rightarrow> Inr (Some (m_a + u))))"

text \<open>
  \<^verbatim>\<open>
  if self._init_a < len(actions):
      self._init_a += 1
      return [ int(i == (self._init_a-1)) for i in range(len(actions)) ]
  else:
      values      = [ self._m[a] + self._Avg_R_UCB(a) if a in self._m else None for a in actions ]
      max_value   = ...
      max_indexes = ...
      return [ int(i in max_indexes)/len(max_indexes) for i in range(len(actions)) ]
  \<close>
  \<^verbatim>\<open>predict\<close> changes \<^verbatim>\<open>_init_a\<close>, so it returns the learner too.
\<close>

definition ucb_predict ::
  "'v online_variance \<Rightarrow> 'k \<Rightarrow> 'c \<Rightarrow> 'a list \<Rightarrow> ('a, 'v) ucb_learner
     \<Rightarrow> (error + real list) \<times> ('a, 'v) ucb_learner" where
  "ucb_predict ov key context actions st =
     (if ucb_init_a st < length actions then
        (let st' = st\<lparr>ucb_init_a := ucb_init_a st + 1\<rparr>
         in (Inr (map (\<lambda>i. if i = ucb_init_a st' - 1 then 1 else 0) [0..<length actions]), st'))
      else
        (case comprehension (ucb_value ov st) actions of
           Inl e \<Rightarrow> (Inl e, st)
         | Inr values \<Rightarrow>
        (case max_value values of
           Inl e \<Rightarrow> (Inl e, st)
         | Inr mv \<Rightarrow>
             (comprehension (greedy_share (max_indexes values mv)) [0..<length actions], st))))"

text \<open>
  \<^verbatim>\<open>
  if action not in self._m: self._m[action] = reward
  else: self._m[action] = (1-1/self._s[action]) * self._m[action] + 1/self._s[action] * reward
  self._t += 1; self._s[action] += 1; self._v[action].update(reward)
  \<close>
\<close>

definition ucb_learn ::
  "'v online_variance \<Rightarrow> 'k \<Rightarrow> 'c \<Rightarrow> 'a \<Rightarrow> real \<Rightarrow> real \<Rightarrow> ('a, 'v) ucb_learner
     \<Rightarrow> error option \<times> ('a, 'v) ucb_learner" where
  "ucb_learn ov key context action reward probability st =
     (case (case ucb_m st action of
              None \<Rightarrow> Inr reward
            | Some m_a \<Rightarrow>
                (case py_div 1 (real (ucb_s st action)) of
                   Inl e \<Rightarrow> Inl e
                 | Inr w \<Rightarrow> Inr ((1 - w) * m_a + w * reward))) of
        Inl e \<Rightarrow> (Some e, st)
      | Inr m' \<Rightarrow>
          (None, st\<lparr>ucb_m := (ucb_m st)(action \<mapsto> m'),
                     ucb_t := ucb_t st + 1,
                     ucb_s := (ucb_s st)(action := ucb_s st action + 1),
                     ucb_v := (ucb_v st)(action := ov_update ov (ucb_v st action) reward)\<rparr>))"

section \<open>CorralLearner\<close>

text \<open>
  The base learners are any objects with the methods \<^verbatim>\<open>predict\<close> and \<^verbatim>\<open>learn\<close> of the
  \<^verbatim>\<open>Learner\<close> interface. The model takes the two methods as a record of functions over a
  type \<open>'l\<close> of base-learner states: a call returns its result, or the exception it raised,
  and the learner as the call left it.
\<close>

record ('l, 'k, 'c, 'a) learner_ops =
  op_predict :: "'k \<Rightarrow> 'c \<Rightarrow> 'a list \<Rightarrow> 'l \<Rightarrow> (error + real list) \<times> 'l"
  op_learn :: "'k \<Rightarrow> 'c \<Rightarrow> 'a \<Rightarrow> real \<Rightarrow> real \<Rightarrow> 'l \<Rightarrow> error option \<times> 'l"

record ('l, 'r, 'k, 'a) corral_learner =
  c_base_learners :: "'l list"
  c_gamma :: real
  c_beta :: real
  c_eta_init :: real
  c_etas :: "real list"
  c_rhos :: "real list"
  c_ps :: "real list"
  c_p_bars :: "real list"
  c_random :: 'r
  c_base_actions :: "'k \<rightharpoonup> 'a list"
  c_base_predicts :: "'k \<rightharpoonup> real list"

text \<open>
  The time horizon \<open>T\<close> is a float that defaults to \<^verbatim>\<open>math.inf\<close>. On that value the
  interpreter computes \<^verbatim>\<open>1/math.inf = 0.0\<close> and \<^verbatim>\<open>math.log(math.inf) = math.inf\<close>;
  \<^verbatim>\<open>math.log\<close> raises \<^verbatim>\<open>ValueError\<close> on an argument that is not positive.
\<close>

datatype horizon = Finite real | Infinity

definition horizon_recip :: "horizon \<Rightarrow> error + real" where
  "horizon_recip T = (case T of Finite x \<Rightarrow> py_div 1 x | Infinity \<Rightarrow> Inr 0)"

definition horizon_log :: "horizon \<Rightarrow> error + horizon" where
  "horizon_log T =
     (case T of
        Finite x \<Rightarrow> (case py_log x of Inl e \<Rightarrow> Inl e | Inr y \<Rightarrow> Inr (Finite y))
      | Infinity \<Rightarrow> Inr Infinity)"

text \<open>
  \<^verbatim>\<open>
  M = len(self._base_learners)
  self._gamma = 1/T
  self._beta  = 1/math.exp(1/math.log(T))
  self._etas  = [ eta ] * M;  self._rhos   = [ float(2*M) ] * M
  self._ps    = [ 1/M ] * M;  self._p_bars = [ 1/M ] * M
  \<close>
\<close>

definition corral_init ::
  "'l list \<Rightarrow> real \<Rightarrow> horizon \<Rightarrow> 'r \<Rightarrow> error + ('l, 'r, 'k, 'a) corral_learner" where
  "corral_init base_learners eta T seed =
     (let M = length base_learners
      in case horizon_recip T of
           Inl e \<Rightarrow> Inl e
         | Inr gamma \<Rightarrow>
        (case horizon_log T of
           Inl e \<Rightarrow> Inl e
         | Inr lg \<Rightarrow>
        (case horizon_recip lg of
           Inl e \<Rightarrow> Inl e
         | Inr x \<Rightarrow>
        (case py_div 1 (exp x) of
           Inl e \<Rightarrow> Inl e
         | Inr beta \<Rightarrow>
        (case py_div 1 (real M) of
           Inl e \<Rightarrow> Inl e
         | Inr u \<Rightarrow>
             Inr \<lparr>c_base_learners = base_learners, c_gamma = gamma, c_beta = beta,
                  c_eta_init = eta, c_etas = replicate M eta,
                  c_rhos = replicate M (real (2 * M)), c_ps = replicate M u,
                  c_p_bars = replicate M u, c_random = seed,
                  c_base_actions = Map.empty, c_base_predicts = Map.empty\<rparr>)))))"

text \<open>
  \<^verbatim>\<open>predicts = [ base_algorithm.predict(key, context, actions) for base_algorithm in ... ]\<close>:
  the learners are asked in order; an exception leaves the later ones untouched.
\<close>

fun predict_all ::
  "('l, 'k, 'c, 'a) learner_ops \<Rightarrow> 'k \<Rightarrow> 'c \<Rightarrow> 'a list \<Rightarrow> 'l list
     \<Rightarrow> (error + real list list) \<times> 'l list" where
  "predict_all ops key context actions [] = (Inr [], [])"
| "predict_all ops key context actions (b # bs) =
     (case op_predict ops key context actions b of
        (Inl e, b') \<Rightarrow> (Inl e, b' # bs)
      | (Inr predict, b') \<Rightarrow>
          (case predict_all ops key context actions bs of
             (Inl e, bs') \<Rightarrow> (Inl e, b' # bs')
           | (Inr predicts, bs') \<Rightarrow> (Inr (predict # predicts), b' # bs')))"

text \<open>
  \<^verbatim>\<open>base_actions = [ self._random.choice(actions, predict) for predict in predicts ]\<close>.
  The class \<^verbatim>\<open>CobaRandom\<close> is not part of the sources at hand; its method \<^verbatim>\<open>choice\<close> is a
  parameter that maps the generator's state, the candidates and the weights to the chosen
  element and the next state, or to the exception it raises.
\<close>

fun choose_all ::
  "('r \<Rightarrow> 'a list \<Rightarrow> real list \<Rightarrow> error + 'a \<times> 'r) \<Rightarrow> 'a list \<Rightarrow> real list list \<Rightarrow> 'r
     \<Rightarrow> (error + 'a list) \<times> 'r" where
  "choose_all choice actions [] r = (Inr [], r)"
| "choose_all choice actions (predict # predicts) r =
     (case choice r actions predict of
        Inl e \<Rightarrow> (Inl e, r)
      | Inr (a, r') \<Rightarrow>
          (case choose_all choice actions predicts r' of
             (Inl e, r'') \<Rightarrow> (Inl e, r'')
           | (Inr as, r'') \<Rightarrow> (Inr (a # as), r'')))"

text \<open>\<^verbatim>\<open>actions.index(action)\<close>: the first position, \<^verbatim>\<open>ValueError\<close> when there is none.\<close>

fun list_index :: "'a list \<Rightarrow> 'a \<Rightarrow> error + nat" where
  "list_index [] a = Inl ValueError"
| "list_index (x # xs) a =
     (if x = a then Inr 0
      else (case list_index xs a of Inl e \<Rightarrow> Inl e | Inr i \<Rightarrow> Inr (Suc i)))"

text \<open>\<^verbatim>\<open>predict[actions.index(action)] for action,predict in zip(base_actions,predicts)\<close>\<close>

definition base_predict_of :: "'a list \<Rightarrow> 'a \<times> real list \<Rightarrow> error + real" where
  "base_predict_of actions = (\<lambda>(action, predict).
     case list_index actions action of
       Inl e \<Rightarrow> Inl e
     | Inr i \<Rightarrow> py_index predict i)"

text \<open>
  \<^verbatim>\<open>[ sum([p_b*int(a==b_a) for p_b,b_a in zip(self._p_bars, base_actions)]) for a in actions ]\<close>
\<close>

definition mixture :: "real list \<Rightarrow> 'a list \<Rightarrow> 'a list \<Rightarrow> real list" where
  "mixture p_bars base_actions actions =
     map (\<lambda>a. sum_list (map (\<lambda>(p_b, b_a). p_b * (if a = b_a then 1 else 0))
                             (zip p_bars base_actions)))
         actions"

definition corral_predict ::
  "('l, 'k, 'c, 'a) learner_ops \<Rightarrow> ('r \<Rightarrow> 'a list \<Rightarrow> real list \<Rightarrow> error + 'a \<times> 'r)
     \<Rightarrow> 'k \<Rightarrow> 'c \<Rightarrow> 'a list \<Rightarrow> ('l, 'r, 'k, 'a) corral_learner
     \<Rightarrow> (error + real list) \<times> ('l, 'r, 'k, 'a) corral_learner" where
  "corral_predict ops choice key context actions st =
     (case predict_all ops key context actions (c_base_learners st) of
        (Inl e, bls) \<Rightarrow> (Inl e, st\<lparr>c_base_learners := bls\<rparr>)
      | (Inr predicts, bls) \<Rightarrow>
     (case choose_all choice actions predicts (c_random st) of
        (Inl e, r) \<Rightarrow> (Inl e, st\<lparr>c_base_learners := bls, c_random := r\<rparr>)
      | (Inr base_actions, r) \<Rightarrow>
     (case comprehension (base_predict_of actions) (zip base_actions predicts) of
        Inl e \<Rightarrow> (Inl e, st\<lparr>c_base_learners := bls, c_random := r\<rparr>)
      | Inr base_predicts \<Rightarrow>
          (Inr (mixture (c_p_bars st) base_actions actions),
           st\<lparr>c_base_learners := bls, c_random := r,
              c_base_actions := (c_base_actions st)(key \<mapsto> base_actions),
              c_base_predicts := (c_base_predicts st)(key \<mapsto> base_predicts)\<rparr>))))"

text \<open>
  \<^verbatim>\<open>losses = [ loss/probability * int(act==action) for act in base_actions ]\<close>
\<close>

definition corral_losses :: "real \<Rightarrow> real \<Rightarrow> 'a \<Rightarrow> 'a list \<Rightarrow> error + real list" where
  "corral_losses loss probability action base_actions =
     comprehension
       (\<lambda>act. case py_div loss probability of
                 Inl e \<Rightarrow> Inl e
               | Inr q \<Rightarrow> Inr (q * (if act = action then 1 else 0)))
       base_actions"

text \<open>
  \<^verbatim>\<open>
  for learner, action, L, P in zip(self._base_learners, base_actions, losses, base_predicts):
      learner.learn(key, context, action, 1-L, P)
  \<close>
  \<open>feedback\<close> is the list of the triples \<open>(action, 1 - L, P)\<close> the loop hands down.
\<close>

definition feedback :: "'a list \<Rightarrow> real list \<Rightarrow> real list \<Rightarrow> ('a \<times> real \<times> real) list" where
  "feedback base_actions losses base_predicts =
     map (\<lambda>(action, L, P). (action, 1 - L, P)) (zip base_actions (zip losses base_predicts))"

fun learn_all ::
  "('l, 'k, 'c, 'a) learner_ops \<Rightarrow> 'k \<Rightarrow> 'c \<Rightarrow> 'l list \<Rightarrow> ('a \<times> real \<times> real) list
     \<Rightarrow> error option \<times> 'l list" where
  "learn_all ops key context [] fs = (None, [])"
| "learn_all ops key context (b # bs) [] = (None, b # bs)"
| "learn_all ops key context (b # bs) ((action, reward, P) # fs) =
     (case op_learn ops key context action reward P b of
        (Some e, b') \<Rightarrow> (Some e, b' # bs)
      | (None, b') \<Rightarrow>
          (case learn_all ops key context bs fs of (r, bs') \<Rightarrow> (r, b' # bs')))"

text \<open>
  \<^verbatim>\<open>
  for i in range(len(self._base_learners)):
      if 1/self._p_bars[i] > self._rhos[i]:
          self._rhos[i] = 2/self._p_bars[i]
          self._etas[i] *= self._beta
  \<close>
\<close>

fun rate_control ::
  "nat list \<Rightarrow> ('l, 'r, 'k, 'a) corral_learner \<Rightarrow> error option \<times> ('l, 'r, 'k, 'a) corral_learner" where
  "rate_control [] st = (None, st)"
| "rate_control (i # is) st =
     (case py_index (c_p_bars st) i of
        Inl e \<Rightarrow> (Some e, st)
      | Inr p_bar \<Rightarrow>
     (case py_div 1 p_bar of
        Inl e \<Rightarrow> (Some e, st)
      | Inr inv_p_bar \<Rightarrow>
     (case py_index (c_rhos st) i of
        Inl e \<Rightarrow> (Some e, st)
      | Inr rho \<Rightarrow>
          if inv_p_bar > rho then
            (let st1 = st\<lparr>c_rhos := (c_rhos st)[i := 2 / p_bar]\<rparr>
             in case py_index (c_etas st1) i of
                  Inl e \<Rightarrow> (Some e, st1)
                | Inr eta \<Rightarrow>
                    rate_control is (st1\<lparr>c_etas := (c_etas st1)[i := eta * c_beta st1]\<rparr>))
          else rate_control is st)))"

text \<open>
  \<^verbatim>\<open>self._p_bars = [ (1-self._gamma)*p + self._gamma*1/len(self._base_learners) for p in self._ps ]\<close>
\<close>

definition smooth :: "real \<Rightarrow> nat \<Rightarrow> real list \<Rightarrow> error + real list" where
  "smooth gamma M ps =
     comprehension
       (\<lambda>p. case py_div (gamma * 1) (real M) of
               Inl e \<Rightarrow> Inl e
             | Inr g \<Rightarrow> Inr ((1 - gamma) * p + g))
       ps"

text \<open>
  Lines 571 to 577: the new weights, the smoothed weights and the rate control.
  \<^verbatim>\<open>self._ps = list(self._log_barrier_omd(losses))\<close> assigns nothing when the solve raises.
\<close>

definition mixture_update ::
  "real list \<Rightarrow> ('l, 'r, 'k, 'a) corral_learner
     \<Rightarrow> (error option \<times> ('l, 'r, 'k, 'a) corral_learner) option" where
  "mixture_update losses st =
     (case log_barrier_omd (c_ps st) (c_etas st) losses of
        None \<Rightarrow> None
      | Some (Inl e) \<Rightarrow> Some (Some e, st)
      | Some (Inr ps') \<Rightarrow>
          (case smooth (c_gamma st) (length (c_base_learners st)) ps' of
             Inl e \<Rightarrow> Some (Some e, st\<lparr>c_ps := ps'\<rparr>)
           | Inr p_bars' \<Rightarrow>
               Some (rate_control [0..<length (c_base_learners st)]
                       (st\<lparr>c_ps := ps', c_p_bars := p_bars'\<rparr>))))"

text \<open>
  \<^verbatim>\<open>learn\<close>, lines 559 to 577. The result is the exception raised, if any, and the learner
  as the call left it: what was assigned before an exception stays assigned. The value
  \<open>None\<close> is a call that never returns, because a Newton search never does.
  \<^verbatim>\<open>
  loss = 1-reward
  base_actions  = self._base_actions.pop(key)
  base_predicts = self._base_predicts.pop(key)
  losses = [ loss/probability * int(act==action) for act in base_actions ]
  for learner, action, L, P in zip(...): learner.learn(key, context, action, 1-L, P)
  \<close>
\<close>

definition corral_learn ::
  "('l, 'k, 'c, 'a) learner_ops \<Rightarrow> 'k \<Rightarrow> 'c \<Rightarrow> 'a \<Rightarrow> real \<Rightarrow> real
     \<Rightarrow> ('l, 'r, 'k, 'a) corral_learner
     \<Rightarrow> (error option \<times> ('l, 'r, 'k, 'a) corral_learner) option" where
  "corral_learn ops key context action reward probability st =
     (let loss = 1 - reward
      in case c_base_actions st key of
           None \<Rightarrow> Some (Some KeyError, st)
         | Some base_actions \<Rightarrow>
        (let st1 = st\<lparr>c_base_actions := (c_base_actions st)(key := None)\<rparr>
         in case c_base_predicts st1 key of
              None \<Rightarrow> Some (Some KeyError, st1)
            | Some base_predicts \<Rightarrow>
           (let st2 = st1\<lparr>c_base_predicts := (c_base_predicts st1)(key := None)\<rparr>
            in case corral_losses loss probability action base_actions of
                 Inl e \<Rightarrow> Some (Some e, st2)
               | Inr losses \<Rightarrow>
              (case learn_all ops key context (c_base_learners st2)
                      (feedback base_actions losses base_predicts) of
                 (Some e, bls) \<Rightarrow> Some (Some e, st2\<lparr>c_base_learners := bls\<rparr>)
               | (None, bls) \<Rightarrow> mixture_update losses (st2\<lparr>c_base_learners := bls\<rparr>)))))"

text \<open>
  A learner's life: any sequence of \<^verbatim>\<open>predict\<close> and \<^verbatim>\<open>learn\<close> calls that return or raise.
\<close>

inductive corral_steps ::
  "('l, 'k, 'c, 'a) learner_ops \<Rightarrow> ('r \<Rightarrow> 'a list \<Rightarrow> real list \<Rightarrow> error + 'a \<times> 'r)
     \<Rightarrow> ('l, 'r, 'k, 'a) corral_learner \<Rightarrow> ('l, 'r, 'k, 'a) corral_learner \<Rightarrow> bool"
  for ops choice where
  steps_none: "corral_steps ops choice st st"
| steps_predict:
    "corral_steps ops choice st st1 \<Longrightarrow>
     corral_predict ops choice key context actions st1 = (res, st2) \<Longrightarrow>
     corral_steps ops choice st st2"
| steps_learn:
    "corral_steps ops choice st st1 \<Longrightarrow>
     corral_learn ops key context action reward probability st1 = Some (res, st2) \<Longrightarrow>
     corral_steps ops choice st st2"

section \<open>Learners and a random source to run the combinator on\<close>

text \<open>
  The two methods of \<^verbatim>\<open>RandomLearner\<close>, as base-learner operations; the learner has no
  state, so its state type is \<open>unit\<close>.
\<close>

definition random_ops :: "(unit, 'k, 'c, 'a) learner_ops" where
  "random_ops =
     \<lparr>op_predict = (\<lambda>key context actions l. (random_predict key context actions, l)),
      op_learn = (\<lambda>key context action reward probability l.
                    (random_learn key context action reward probability, l))\<rparr>"

text \<open>
  A random source that replays a script: its state is the list of the positions still to
  be drawn, and \<^verbatim>\<open>choice\<close> returns the candidate at the next position. A draw stands for
  an outcome of \<^verbatim>\<open>CobaRandom.choice\<close> when the weight at that position is positive.
\<close>

fun scripted_choice :: "nat list \<Rightarrow> 'a list \<Rightarrow> real list \<Rightarrow> error + 'a \<times> nat list" where
  "scripted_choice [] actions weights = Inl IndexError"
| "scripted_choice (i # is) actions weights =
     (case py_index actions i of Inl e \<Rightarrow> Inl e | Inr a \<Rightarrow> Inr (a, is))"

text \<open>
  Two combinators over \<^verbatim>\<open>RandomLearner\<close>s with the default horizon, as their constructor
  leaves them (\<open>two_random\<close>, \<open>one_random\<close>) and after one \<^verbatim>\<open>predict\<close> with key \<open>0\<close> on
  the actions \<open>0\<close> and \<open>1\<close> (\<open>two_random_asked\<close>: the first learner drew action \<open>0\<close>,
  the second action \<open>1\<close>; \<open>one_random_asked\<close>: the learner drew action \<open>0\<close>).
\<close>

definition two_random :: "real \<Rightarrow> nat list \<Rightarrow> (unit, nat list, nat, nat) corral_learner" where
  "two_random eta script =
     \<lparr>c_base_learners = [(), ()], c_gamma = 0, c_beta = 1, c_eta_init = eta,
      c_etas = [eta, eta], c_rhos = [4, 4], c_ps = [1 / 2, 1 / 2], c_p_bars = [1 / 2, 1 / 2],
      c_random = script, c_base_actions = Map.empty, c_base_predicts = Map.empty\<rparr>"

definition two_random_asked :: "real \<Rightarrow> nat list \<Rightarrow> (unit, nat list, nat, nat) corral_learner" where
  "two_random_asked eta script =
     (two_random eta script)\<lparr>c_base_actions := [0 \<mapsto> [0, 1]],
                           c_base_predicts := [0 \<mapsto> [1 / 2, 1 / 2]]\<rparr>"

definition one_random :: "real \<Rightarrow> nat list \<Rightarrow> (unit, nat list, nat, nat) corral_learner" where
  "one_random eta script =
     \<lparr>c_base_learners = [()], c_gamma = 0, c_beta = 1, c_eta_init = eta,
      c_etas = [eta], c_rhos = [2], c_ps = [1], c_p_bars = [1],
      c_random = script, c_base_actions = Map.empty, c_base_predicts = Map.empty\<rparr>"

definition one_random_asked :: "real \<Rightarrow> nat list \<Rightarrow> (unit, nat list, nat, nat) corral_learner" where
  "one_random_asked eta script =
     (one_random eta script)\<lparr>c_base_actions := [0 \<mapsto> [0]], c_base_predicts := [0 \<mapsto> [1 / 2]]\<rparr>"


text \<open>\<open>two_random_asked (1/10000)\<close> after \<^verbatim>\<open>learn\<close> with reward \<open>0\<close>, probability \<open>1\<close>, action \<open>0\<close>.\<close>

definition two_random_taught :: "nat list \<Rightarrow> (unit, nat list, nat, nat) corral_learner" where
  "two_random_taught script =
     (two_random (1 / 10000) script)\<lparr>c_ps := [10000 / 20001, 1 / 2],
                                       c_p_bars := [10000 / 20001, 1 / 2]\<rparr>"

text \<open>
  A learner's life as the list of the calls made on it; \<open>ucb_run\<close> is the
  \<^verbatim>\<open>UcbTunedLearner\<close> after the calls, whatever they returned or raised.
\<close>

datatype ('k, 'c, 'a) call = Predict 'k 'c "'a list" | Learn 'k 'c 'a real real

fun ucb_run ::
  "'v online_variance \<Rightarrow> ('k, 'c, 'a) call list \<Rightarrow> ('a, 'v) ucb_learner \<Rightarrow> ('a, 'v) ucb_learner" where
  "ucb_run ov [] st = st"
| "ucb_run ov (Predict key context actions # cs) st =
     ucb_run ov cs (snd (ucb_predict ov key context actions st))"
| "ucb_run ov (Learn key context action reward probability # cs) st =
     ucb_run ov cs (snd (ucb_learn ov key context action reward probability st))"

text \<open>How many of the calls are \<^verbatim>\<open>predict\<close>, and whether a \<^verbatim>\<open>predict\<close> was given \<open>n\<close> actions.\<close>

fun predict_calls :: "('k, 'c, 'a) call list \<Rightarrow> nat" where
  "predict_calls [] = 0"
| "predict_calls (Predict key context actions # cs) = Suc (predict_calls cs)"
| "predict_calls (Learn key context action reward probability # cs) = predict_calls cs"

fun on_actions :: "nat \<Rightarrow> ('k, 'c, 'a) call \<Rightarrow> bool" where
  "on_actions n (Predict key context actions) = (length actions = n)"
| "on_actions n (Learn key context action reward probability) = True"

text \<open>
  A stand-in for \<^verbatim>\<open>OnlineVariance\<close> that keeps nothing and reports the variance \<open>0\<close>, to
  run the learner on concrete inputs.
\<close>

definition no_variance :: "unit online_variance" where
  "no_variance = \<lparr>ov_new = (), ov_update = (\<lambda>v x. ()), ov_variance = (\<lambda>v. 0)\<rparr>"

section \<open>Auxiliary notions for the properties\<close>



text \<open>
  What every state of a combinator built with a horizon above one (or the default) keeps:
  the lists have one entry per base learner, the stored choices too, the constants are in
  range, and weights and thresholds are positive, each threshold at least \<open>1/p_bar\<close>.
\<close>

definition corral_inv :: "nat \<Rightarrow> ('l, 'r, 'k, 'a) corral_learner \<Rightarrow> bool" where
  "corral_inv M st =
     (0 < M \<and> length (c_base_learners st) = M \<and> length (c_etas st) = M \<and>
      length (c_rhos st) = M \<and> length (c_ps st) = M \<and> length (c_p_bars st) = M \<and>
      (\<forall>k as. c_base_actions st k = Some as \<longrightarrow> length as = M) \<and>
      0 \<le> c_gamma st \<and> c_gamma st \<le> 1 \<and> 0 < c_beta st \<and> c_beta st \<le> 1 \<and>
      list_all (\<lambda>p. 0 < p) (c_ps st) \<and> list_all (\<lambda>p. 0 < p) (c_p_bars st) \<and>
      list_all (\<lambda>r. 0 < r) (c_rhos st) \<and>
      (\<forall>i < M. 1 / (c_p_bars st ! i) \<le> c_rhos st ! i))"

text \<open>The rate control, entry by entry, between the state before and the state after.\<close>

definition rate_updated ::
  "('l, 'r, 'k, 'a) corral_learner \<Rightarrow> ('l, 'r, 'k, 'a) corral_learner \<Rightarrow> bool" where
  "rate_updated st st' =
     (\<forall>i < length (c_rhos st).
        (if c_rhos st ! i < 1 / (c_p_bars st' ! i)
         then c_rhos st' ! i = 2 / (c_p_bars st' ! i) \<and> c_etas st' ! i = c_etas st ! i * c_beta st
         else c_rhos st' ! i = c_rhos st ! i \<and> c_etas st' ! i = c_etas st ! i))"

text \<open>A \<^verbatim>\<open>learn\<close> that reached the end: new weights, smoothed weights, rates.\<close>

definition weights_updated ::
  "real list \<Rightarrow> ('l, 'r, 'k, 'a) corral_learner \<Rightarrow> ('l, 'r, 'k, 'a) corral_learner \<Rightarrow> bool" where
  "weights_updated losses st st' =
     (log_barrier_omd (c_ps st) (c_etas st) losses = Some (Inr (c_ps st')) \<and>
      c_p_bars st' =
        map (\<lambda>p. (1 - c_gamma st) * p + c_gamma st / real (length (c_base_learners st))) (c_ps st') \<and>
      length (c_rhos st') = length (c_rhos st) \<and> length (c_etas st') = length (c_etas st) \<and>
      rate_updated st st')"


(*PROPERTIES*)
section \<open>Properties of the log-barrier solve\<close>

lemma py_round4_eq_1: "(py_round4 x = 1) = (99995 / 100000 \<le> x \<and> x \<le> 100005 / 100000)"
proof -
  define y where "y = x * 10000"
  define n where "n = \<lfloor>y\<rfloor>"
  define r where "r = y - of_int n"
  define k where "k = (if r < 1 / 2 then n else if 1 / 2 < r then n + 1
                 else if even n then n else n + 1)"
  have r: "0 \<le> r" "r < 1" unfolding r_def n_def by linarith+
  have pr: "py_round4 x = of_int k / 10000"
    unfolding py_round4_def Let_def k_def r_def n_def y_def by simp
  have "(py_round4 x = 1) = (k = 10000)"
    unfolding pr by (simp add: divide_eq_eq_numeral1)  
  also have "\<dots> = (19999 / 2 \<le> y \<and> y \<le> 20001 / 2)"
  proof
    assume k: "k = 10000"
    show "19999 / 2 \<le> y \<and> y \<le> 20001 / 2"
    proof (cases "r < 1/2")
      case True
      with k have "n = 10000" by (simp add: k_def)
      with True r show ?thesis unfolding r_def by simp
    next
      case False
      note nl = this
      show ?thesis
      proof (cases "1/2 < r")
        case True
        with nl k have "n = 9999" by (simp add: k_def)
        with True r show ?thesis unfolding r_def by simp
      next
        case False
        with nl have rh: "r = 1/2" by simp
        with k have "n = 10000 \<or> n = 9999" by (auto simp: k_def split: if_splits)
        with rh show ?thesis unfolding r_def by auto
      qed
    qed
  next
    assume a: "19999 / 2 \<le> y \<and> y \<le> 20001 / 2"
    then have "9999 \<le> n" "n \<le> 10000" unfolding n_def by (simp_all add: le_floor_iff floor_le_iff)
    then consider "n = 9999" | "n = 10000" by linarith
    then show "k = 10000"
    proof cases
      case 1
      with a have "1/2 \<le> r" unfolding r_def by simp
      with 1 show ?thesis by (auto simp: k_def)
    next
      case 2
      with a have "r \<le> 1/2" unfolding r_def by simp
      with 2 show ?thesis by (auto simp: k_def)
    qed
  qed
  also have "\<dots> = (99995 / 100000 \<le> x \<and> x \<le> 100005 / 100000)"
    unfolding y_def by auto
  finally show ?thesis .
qed



lemma comprehension_total:
  "(\<And>z. z \<in> set zs \<Longrightarrow> g z = Inr (h z)) \<Longrightarrow> comprehension g zs = Inr (map h zs)"
  by (induction zs) auto














lemmas ev = f_def df_def f_term_def df_term_def py_div_def py_round4_eq_1 power2_eq_square



section \<open>Properties of the combinator\<close>

lemma comprehension_length: "comprehension g xs = Inr vs \<Longrightarrow> length vs = length xs"
  by (induction xs arbitrary: vs) (auto split: sum.splits)

lemma comprehension_nth:
  "comprehension g xs = Inr vs \<Longrightarrow> i < length xs \<Longrightarrow> g (xs ! i) = Inr (vs ! i)"
proof (induction xs arbitrary: vs i)
  case Nil then show ?case by simp
next
  case (Cons x xs)
  then show ?case by (cases i) (auto split: sum.splits)
qed

lemma predict_all_length:
  "predict_all ops key context actions bls = (r, bls') \<Longrightarrow>
     length bls' = length bls \<and> (\<forall>predicts. r = Inr predicts \<longrightarrow> length predicts = length bls)"
proof (induction bls arbitrary: r bls')
  case Nil then show ?case by auto
next
  case (Cons b bs)
  then show ?case by (auto split: prod.splits sum.splits)
qed

lemma choose_all_length:
  "choose_all choice actions predicts r = (Inr bas, r') \<Longrightarrow> length bas = length predicts"
proof (induction predicts arbitrary: r bas r')
  case Nil then show ?case by auto
next
  case (Cons p ps)
  then show ?case by (auto split: prod.splits sum.splits)
qed

lemma learn_all_length: "length (snd (learn_all ops key ctx bls fs)) = length bls"
  by (induction ops key ctx bls fs rule: learn_all.induct) (auto split: prod.splits option.splits)

lemma rate_control_frame:
  "rate_control is st = (res, st') \<Longrightarrow>
     st' = st\<lparr>c_rhos := c_rhos st', c_etas := c_etas st'\<rparr> \<and>
     length (c_rhos st') = length (c_rhos st) \<and> length (c_etas st') = length (c_etas st)"
proof (induction "is" arbitrary: st res st')
  case Nil then show ?case by simp
next
  case (Cons i "is")
  show ?case
  proof (cases "py_index (c_p_bars st) i")
    case (Inl e) with Cons.prems show ?thesis by auto
  next
    case pb: (Inr p_bar)
    show ?thesis
    proof (cases "py_div 1 p_bar")
      case (Inl e) with Cons.prems pb show ?thesis by auto
    next
      case ipb: (Inr inv_p_bar)
      show ?thesis
      proof (cases "py_index (c_rhos st) i")
        case (Inl e) with Cons.prems pb ipb show ?thesis by auto
      next
        case rho: (Inr rho)
        show ?thesis
        proof (cases "inv_p_bar > rho")
          case False
          with Cons.prems pb ipb rho have "rate_control is st = (res, st')" by simp
          from Cons.IH[OF this] show ?thesis .
        next
          case True
          let ?st1 = "st\<lparr>c_rhos := (c_rhos st)[i := 2 / p_bar]\<rparr>"
          show ?thesis
          proof (cases "py_index (c_etas ?st1) i")
            case (Inl e) with Cons.prems pb ipb rho True show ?thesis by (auto simp: Let_def)
          next
            case (Inr eta)
            let ?st2 = "?st1\<lparr>c_etas := (c_etas ?st1)[i := eta * c_beta ?st1]\<rparr>"
            from Cons.prems pb ipb rho True Inr have "rate_control is ?st2 = (res, st')"
              by (simp add: Let_def)
            from Cons.IH[OF this] show ?thesis by simp
          qed
        qed
      qed
    qed
  qed
qed


lemma rate_control_closed:
  assumes "list_all (\<lambda>i. i < length (c_p_bars st) \<and> i < length (c_rhos st) \<and>
                        i < length (c_etas st) \<and> c_p_bars st ! i \<noteq> 0) is"
    and "distinct is"
  shows "\<exists>rhos' etas'.
           rate_control is st = (None, st\<lparr>c_rhos := rhos', c_etas := etas'\<rparr>) \<and>
           length rhos' = length (c_rhos st) \<and> length etas' = length (c_etas st) \<and>
           (\<forall>j. rhos' ! j =
                  (if j \<in> set is \<and> c_rhos st ! j < 1 / (c_p_bars st ! j)
                   then 2 / (c_p_bars st ! j) else c_rhos st ! j)) \<and>
           (\<forall>j. etas' ! j =
                  (if j \<in> set is \<and> c_rhos st ! j < 1 / (c_p_bars st ! j)
                   then c_etas st ! j * c_beta st else c_etas st ! j))"
  using assms
proof (induction "is" arbitrary: st)
  case Nil
  have "st = st\<lparr>c_rhos := c_rhos st, c_etas := c_etas st\<rparr>" by simp
  then show ?case by (intro exI[of _ "c_rhos st"] exI[of _ "c_etas st"]) simp
next
  case (Cons i "is")
  from Cons.prems have i: "i < length (c_p_bars st)" "i < length (c_rhos st)"
    "i < length (c_etas st)" "c_p_bars st ! i \<noteq> 0" "i \<notin> set is" "distinct is" by auto
  let ?pb = "c_p_bars st ! i"
  show ?case
  proof (cases "c_rhos st ! i < 1 / ?pb")
    case False
    from Cons.prems have "list_all (\<lambda>i. i < length (c_p_bars st) \<and> i < length (c_rhos st) \<and>
                        i < length (c_etas st) \<and> c_p_bars st ! i \<noteq> 0) is" by simp
    from Cons.IH[OF this i(6)] obtain rhos' etas' where
      r: "rate_control is st = (None, st\<lparr>c_rhos := rhos', c_etas := etas'\<rparr>)"
        "length rhos' = length (c_rhos st)" "length etas' = length (c_etas st)"
        "\<forall>j. rhos' ! j = (if j \<in> set is \<and> c_rhos st ! j < 1 / (c_p_bars st ! j)
                   then 2 / (c_p_bars st ! j) else c_rhos st ! j)"
        "\<forall>j. etas' ! j = (if j \<in> set is \<and> c_rhos st ! j < 1 / (c_p_bars st ! j)
                   then c_etas st ! j * c_beta st else c_etas st ! j)" by blast
    have "rate_control (i # is) st = (None, st\<lparr>c_rhos := rhos', c_etas := etas'\<rparr>)"
      using i False r(1) by (simp add: py_index_def py_div_def)
    moreover have "\<forall>j. rhos' ! j = (if j \<in> set (i # is) \<and> c_rhos st ! j < 1 / (c_p_bars st ! j)
                   then 2 / (c_p_bars st ! j) else c_rhos st ! j)"
      using r(4) False by auto
    moreover have "\<forall>j. etas' ! j = (if j \<in> set (i # is) \<and> c_rhos st ! j < 1 / (c_p_bars st ! j)
                   then c_etas st ! j * c_beta st else c_etas st ! j)"
      using r(5) False by auto
    ultimately show ?thesis using r(2,3) by blast
  next
    case True
    let ?st2 = "st\<lparr>c_rhos := (c_rhos st)[i := 2 / ?pb],
                    c_etas := (c_etas st)[i := c_etas st ! i * c_beta st]\<rparr>"
    from Cons.prems have "list_all (\<lambda>i. i < length (c_p_bars ?st2) \<and> i < length (c_rhos ?st2) \<and>
                        i < length (c_etas ?st2) \<and> c_p_bars ?st2 ! i \<noteq> 0) is" by simp
    from Cons.IH[OF this i(6)] obtain rhos' etas' where
      r: "rate_control is ?st2 = (None, ?st2\<lparr>c_rhos := rhos', c_etas := etas'\<rparr>)"
        "length rhos' = length (c_rhos ?st2)" "length etas' = length (c_etas ?st2)"
        "\<forall>j. rhos' ! j = (if j \<in> set is \<and> c_rhos ?st2 ! j < 1 / (c_p_bars ?st2 ! j)
                   then 2 / (c_p_bars ?st2 ! j) else c_rhos ?st2 ! j)"
        "\<forall>j. etas' ! j = (if j \<in> set is \<and> c_rhos ?st2 ! j < 1 / (c_p_bars ?st2 ! j)
                   then c_etas ?st2 ! j * c_beta ?st2 else c_etas ?st2 ! j)" by blast
    have "rate_control (i # is) st = (None, st\<lparr>c_rhos := rhos', c_etas := etas'\<rparr>)"
      using i True r(1) by (simp add: py_index_def py_div_def Let_def)
    moreover have "rhos' ! j = (if j \<in> set (i # is) \<and> c_rhos st ! j < 1 / (c_p_bars st ! j)
                   then 2 / (c_p_bars st ! j) else c_rhos st ! j)" for j
    proof (cases "j = i")
      case True
      with r(4) i True \<open>c_rhos st ! i < 1 / ?pb\<close> show ?thesis by simp
    next
      case False
      with r(4) show ?thesis by simp
    qed
    moreover have "etas' ! j = (if j \<in> set (i # is) \<and> c_rhos st ! j < 1 / (c_p_bars st ! j)
                   then c_etas st ! j * c_beta st else c_etas st ! j)" for j
    proof (cases "j = i")
      case True
      with r(5) i True \<open>c_rhos st ! i < 1 / ?pb\<close> show ?thesis by simp
    next
      case False
      with r(5) show ?thesis by simp
    qed
    moreover have "length rhos' = length (c_rhos st)" "length etas' = length (c_etas st)"
      using r(2,3) by simp_all
    ultimately show ?thesis by blast
  qed
qed

lemma weight_term_floor: "weight_term lmbda z = Inr w \<Longrightarrow> 1 / 100000 \<le> w"
  by (cases z) (auto simp: weight_term_def split: sum.splits option.splits)

lemma comprehension_all:
  "comprehension g xs = Inr vs \<Longrightarrow> (\<And>x v. g x = Inr v \<Longrightarrow> Q v) \<Longrightarrow> list_all Q vs"
  by (induction xs arbitrary: vs) (auto split: sum.splits)

lemma log_barrier_omd_result:
  assumes "log_barrier_omd ps etas losses = Some (Inr ps')"
  shows "length ps' = length (zip ps (zip etas losses)) \<and> list_all (\<lambda>p. 1 / 100000 \<le> p) ps'"
proof -
  from assms obtain lmbda where
    c: "comprehension (weight_term lmbda) (zip ps (zip etas losses)) = Inr ps'"
    by (auto simp: log_barrier_omd_def split: option.splits sum.splits)
  from comprehension_length[OF c] comprehension_all[OF c weight_term_floor]
  show ?thesis by simp
qed

lemma smooth_total:
  "0 < M \<Longrightarrow> smooth gamma M ps = Inr (map (\<lambda>p. (1 - gamma) * p + gamma / real M) ps)"
  unfolding smooth_def by (intro comprehension_total) (simp add: py_div_def)

lemma smooth_pos:
  assumes "0 \<le> gamma" "gamma \<le> 1" "0 < M" "list_all (\<lambda>p. 1 / 100000 \<le> p) ps"
  shows "list_all (\<lambda>p. 0 < p) (map (\<lambda>p. (1 - gamma) * p + gamma / real M) ps)"
proof -
  have "0 < (1 - gamma) * p + gamma / real M" if "1 / 100000 \<le> p" for p :: real
  proof (cases "gamma = 1")
    case True
    with assms(3) show ?thesis by simp
  next
    case False
    with assms(2) have "0 < 1 - gamma" by simp
    moreover from that have "0 < p" by simp
    ultimately have "0 < (1 - gamma) * p" by simp
    moreover have "0 \<le> gamma / real M" using assms(1) by simp
    ultimately show ?thesis by linarith
  qed
  with assms(4) show ?thesis by (simp add: list_all_iff)
qed

lemma mixture_update_effect:
  assumes inv: "corral_inv M st" and len: "length losses = M"
    and mu: "mixture_update losses st = Some (res, st')"
  shows "st' = st \<or>
         (res = None \<and> weights_updated losses st st' \<and>
          (\<exists>ps' pb rhos' etas'.
             st' = st\<lparr>c_ps := ps', c_p_bars := pb, c_rhos := rhos', c_etas := etas'\<rparr>))"
proof (cases "log_barrier_omd (c_ps st) (c_etas st) losses")
  case None
  with mu show ?thesis by (simp add: mixture_update_def)
next
  case (Some r)
  show ?thesis
  proof (cases r)
    case (Inl e)
    with Some mu show ?thesis by (simp add: mixture_update_def)
  next
    case (Inr ps')
    with Some have lb: "log_barrier_omd (c_ps st) (c_etas st) losses = Some (Inr ps')" by simp
    from inv have M: "0 < M" "length (c_base_learners st) = M" "length (c_etas st) = M"
      "length (c_rhos st) = M" "length (c_ps st) = M" "0 \<le> c_gamma st" "c_gamma st \<le> 1"
      by (simp_all add: corral_inv_def)
    from log_barrier_omd_result[OF lb] M len
    have ps': "length ps' = M" "list_all (\<lambda>p. 1 / 100000 \<le> p) ps'" by simp_all
    define pb where "pb = map (\<lambda>p. (1 - c_gamma st) * p + c_gamma st / real M) ps'"
    have sm: "smooth (c_gamma st) (length (c_base_learners st)) ps' = Inr pb"
      using smooth_total[OF M(1)] M(2) by (simp add: pb_def)
    have pbpos: "list_all (\<lambda>p. 0 < p) pb"
      unfolding pb_def using smooth_pos[OF M(6,7,1) ps'(2)] .
    let ?st4 = "st\<lparr>c_ps := ps', c_p_bars := pb\<rparr>"
    have "list_all (\<lambda>i. i < length (c_p_bars ?st4) \<and> i < length (c_rhos ?st4) \<and>
                        i < length (c_etas ?st4) \<and> c_p_bars ?st4 ! i \<noteq> 0) [0..<M]"
    proof -
      have "length pb = M" using ps'(1) by (simp add: pb_def)
      moreover have "pb ! i \<noteq> 0" if "i < M" for i
      proof -
        from that \<open>length pb = M\<close> have "pb ! i \<in> set pb" by simp
        with pbpos have "0 < pb ! i" by (simp add: list_all_iff)
        then show ?thesis by simp
      qed
      ultimately show ?thesis using M by (simp add: list_all_iff)
    qed
    from rate_control_closed[OF this] obtain rhos' etas' where
      rc: "rate_control [0..<M] ?st4 = (None, ?st4\<lparr>c_rhos := rhos', c_etas := etas'\<rparr>)"
        "length rhos' = length (c_rhos ?st4)" "length etas' = length (c_etas ?st4)"
        "\<forall>j. rhos' ! j = (if j \<in> set [0..<M] \<and> c_rhos ?st4 ! j < 1 / (c_p_bars ?st4 ! j)
                   then 2 / (c_p_bars ?st4 ! j) else c_rhos ?st4 ! j)"
        "\<forall>j. etas' ! j = (if j \<in> set [0..<M] \<and> c_rhos ?st4 ! j < 1 / (c_p_bars ?st4 ! j)
                   then c_etas ?st4 ! j * c_beta ?st4 else c_etas ?st4 ! j)" by auto
    from mu lb sm rc(1) M(2)
    have res: "res = None" and st': "st' = ?st4\<lparr>c_rhos := rhos', c_etas := etas'\<rparr>"
      by (simp_all add: mixture_update_def)
    have "rate_updated st st'"
      unfolding rate_updated_def using rc(4,5) M(4) by (simp add: st')
    then have "weights_updated losses st st'"
      unfolding weights_updated_def using lb rc(2,3) M(2) by (simp add: st' pb_def)
    moreover have "\<exists>ps' pb rhos' etas'.
             st' = st\<lparr>c_ps := ps', c_p_bars := pb, c_rhos := rhos', c_etas := etas'\<rparr>"
      unfolding st' by blast
    ultimately show ?thesis using res by blast
  qed
qed

lemma corral_predict_effect:
  assumes "corral_predict ops choice key ctx actions st = (r, st')"
  shows "c_gamma st' = c_gamma st \<and> c_beta st' = c_beta st \<and> c_eta_init st' = c_eta_init st \<and>
         c_etas st' = c_etas st \<and> c_rhos st' = c_rhos st \<and> c_ps st' = c_ps st \<and>
         c_p_bars st' = c_p_bars st \<and>
         length (c_base_learners st') = length (c_base_learners st) \<and>
         (case r of
            Inl e \<Rightarrow> c_base_actions st' = c_base_actions st \<and>
                     c_base_predicts st' = c_base_predicts st
          | Inr probs \<Rightarrow>
              (\<exists>bas bps. c_base_actions st' = (c_base_actions st)(key \<mapsto> bas) \<and>
                         c_base_predicts st' = (c_base_predicts st)(key \<mapsto> bps) \<and>
                         length bas = length (c_base_learners st) \<and>
                         probs = mixture (c_p_bars st) bas actions))"
proof -
  obtain r1 bls where pa: "predict_all ops key ctx actions (c_base_learners st) = (r1, bls)"
    by (cases "predict_all ops key ctx actions (c_base_learners st)")
  from predict_all_length[OF pa] have bl: "length bls = length (c_base_learners st)"
    and pl: "\<And>predicts. r1 = Inr predicts \<Longrightarrow> length predicts = length (c_base_learners st)"
    by auto
  show ?thesis
  proof (cases r1)
    case (Inl e)
    with assms pa have "r = Inl e" "st' = st\<lparr>c_base_learners := bls\<rparr>"
      by (simp_all add: corral_predict_def)
    with bl show ?thesis by simp
  next
    case (Inr predicts)
    obtain r2 rnd where ca: "choose_all choice actions predicts (c_random st) = (r2, rnd)"
      by (cases "choose_all choice actions predicts (c_random st)")
    show ?thesis
    proof (cases r2)
      case (Inl e)
      with assms pa Inr ca have "r = Inl e" "st' = st\<lparr>c_base_learners := bls, c_random := rnd\<rparr>"
        by (simp_all add: corral_predict_def)
      with bl show ?thesis by simp
    next
      case bas: (Inr base_actions)
      from choose_all_length[of choice actions predicts "c_random st" base_actions rnd] ca bas pl[OF Inr]
      have lb: "length base_actions = length (c_base_learners st)" by simp
      show ?thesis
      proof (cases "comprehension (base_predict_of actions) (zip base_actions predicts)")
        case (Inl e)
        with assms pa Inr ca bas
        have "r = Inl e" "st' = st\<lparr>c_base_learners := bls, c_random := rnd\<rparr>"
          by (simp_all add: corral_predict_def)
        with bl show ?thesis by simp
      next
        case bps: (Inr base_predicts)
        with assms pa Inr ca bas
        have "r = Inr (mixture (c_p_bars st) base_actions actions)"
          "st' = st\<lparr>c_base_learners := bls, c_random := rnd,
              c_base_actions := (c_base_actions st)(key \<mapsto> base_actions),
              c_base_predicts := (c_base_predicts st)(key \<mapsto> base_predicts)\<rparr>"
          by (simp_all add: corral_predict_def)
        with bl lb show ?thesis by auto
      qed
    qed
  qed
qed

lemma corral_learn_unknown_key:
  "c_base_actions st key = None \<Longrightarrow>
     corral_learn ops key ctx action reward probability st = Some (Some KeyError, st)"
  by (simp add: corral_learn_def)

lemma corral_losses_length:
  "corral_losses loss probability action bas = Inr losses \<Longrightarrow> length losses = length bas"
  unfolding corral_losses_def by (rule comprehension_length)

lemma corral_learn_effect:
  assumes inv: "corral_inv M st"
    and l: "corral_learn ops key ctx action reward probability st = Some (res, st')"
  shows "c_gamma st' = c_gamma st \<and> c_beta st' = c_beta st \<and> c_eta_init st' = c_eta_init st \<and>
         c_random st' = c_random st \<and>
         length (c_base_learners st') = length (c_base_learners st) \<and>
         (c_base_actions st' = c_base_actions st \<or>
          c_base_actions st' = (c_base_actions st)(key := None)) \<and>
         (c_base_predicts st' = c_base_predicts st \<or>
          c_base_predicts st' = (c_base_predicts st)(key := None)) \<and>
         ((c_ps st' = c_ps st \<and> c_p_bars st' = c_p_bars st \<and>
           c_rhos st' = c_rhos st \<and> c_etas st' = c_etas st) \<or>
          (res = None \<and> (\<exists>losses. length losses = M \<and> weights_updated losses st st')))"
proof (cases "c_base_actions st key")
  case None
  with l show ?thesis by (simp add: corral_learn_def)
next
  case bas: (Some base_actions)
  from inv bas have lbas: "length base_actions = M" by (simp add: corral_inv_def)
  show ?thesis
  proof (cases "c_base_predicts st key")
    case None
    with l bas show ?thesis by (auto simp: corral_learn_def)
  next
    case bps: (Some base_predicts)
    let ?st2 = "st\<lparr>c_base_actions := (c_base_actions st)(key := None),
                    c_base_predicts := (c_base_predicts st)(key := None)\<rparr>"
    show ?thesis
    proof (cases "corral_losses (1 - reward) probability action base_actions")
      case (Inl e)
      with l bas bps show ?thesis by (auto simp: corral_learn_def)
    next
      case ls: (Inr losses)
      from corral_losses_length[OF ls] lbas have ll: "length losses = M" by simp
      obtain r1 bls where la: "learn_all ops key ctx (c_base_learners st)
                      (feedback base_actions losses base_predicts) = (r1, bls)"
        by (cases "learn_all ops key ctx (c_base_learners st)
                      (feedback base_actions losses base_predicts)")
      from learn_all_length[of ops key ctx "c_base_learners st"
          "feedback base_actions losses base_predicts"] la
      have bl: "length bls = length (c_base_learners st)" by simp
      show ?thesis
      proof (cases r1)
        case (Some e)
        with l bas bps ls la bl show ?thesis by (auto simp: corral_learn_def)
      next
        case None
        let ?st3 = "?st2\<lparr>c_base_learners := bls\<rparr>"
        from l bas bps ls la None have mu: "mixture_update losses ?st3 = Some (res, st')"
          by (simp add: corral_learn_def)
        have inv3: "corral_inv M ?st3"
          using inv bl by (auto simp: corral_inv_def split: if_splits)
        from mixture_update_effect[OF inv3 ll mu]
        show ?thesis
        proof
          assume "st' = ?st3"
          with bl show ?thesis by simp
        next
          assume a: "res = None \<and> weights_updated losses ?st3 st' \<and>
             (\<exists>ps' pb rhos' etas'.
                st' = ?st3\<lparr>c_ps := ps', c_p_bars := pb, c_rhos := rhos', c_etas := etas'\<rparr>)"
          then have w: "weights_updated losses ?st3 st'" and rn: "res = None" by blast+
          have wu: "weights_updated losses st st'"
            using w bl by (simp add: weights_updated_def rate_updated_def)
          from a obtain ps' pb rhos' etas' where
            "st' = ?st3\<lparr>c_ps := ps', c_p_bars := pb, c_rhos := rhos', c_etas := etas'\<rparr>"
            by blast
          then have fr: "c_gamma st' = c_gamma st" "c_beta st' = c_beta st"
              "c_eta_init st' = c_eta_init st" "c_random st' = c_random st"
              "c_base_learners st' = bls"
              "c_base_actions st' = (c_base_actions st)(key := None)"
              "c_base_predicts st' = (c_base_predicts st)(key := None)"
            by simp_all
          have "\<exists>losses. length losses = M \<and> weights_updated losses st st'"
            using ll wu by blast
          with fr bl rn show ?thesis by simp
        qed
      qed
    qed
  qed
qed

lemma weights_updated_ps:
  assumes "corral_inv M st" "length losses = M" "weights_updated losses st st'"
  shows "length (c_ps st') = M \<and> list_all (\<lambda>p. 1 / 100000 \<le> p) (c_ps st')"
proof -
  from assms(3) have "log_barrier_omd (c_ps st) (c_etas st) losses = Some (Inr (c_ps st'))"
    by (simp add: weights_updated_def)
  from log_barrier_omd_result[OF this] assms(1,2) show ?thesis
    by (simp add: corral_inv_def)
qed

lemma weights_updated_inv:
  assumes inv: "corral_inv M st" and ll: "length losses = M"
    and wu: "weights_updated losses st st'"
  shows "length (c_p_bars st') = M \<and> list_all (\<lambda>p. 0 < p) (c_p_bars st') \<and>
         length (c_rhos st') = M \<and> length (c_etas st') = M \<and>
         list_all (\<lambda>r. 0 < r) (c_rhos st') \<and> list_all (\<lambda>p. 0 < p) (c_ps st') \<and>
         (\<forall>i < M. 1 / (c_p_bars st' ! i) \<le> c_rhos st' ! i)"
proof -
  from inv have M: "0 < M" "length (c_base_learners st) = M" "length (c_etas st) = M"
      "length (c_rhos st) = M" "0 \<le> c_gamma st" "c_gamma st \<le> 1"
      "list_all (\<lambda>r. 0 < r) (c_rhos st)"
    by (simp_all add: corral_inv_def)
  from weights_updated_ps[OF inv ll wu]
  have ps: "length (c_ps st') = M" "list_all (\<lambda>p. 1 / 100000 \<le> p) (c_ps st')" by simp_all
  from wu have pb: "c_p_bars st' =
        map (\<lambda>p. (1 - c_gamma st) * p + c_gamma st / real M) (c_ps st')"
    and lr: "length (c_rhos st') = M" and le: "length (c_etas st') = M"
    and ru: "rate_updated st st'"
    using M by (simp_all add: weights_updated_def)
  have pbl: "length (c_p_bars st') = M" using pb ps(1) by simp
  have pbpos: "list_all (\<lambda>p. 0 < p) (c_p_bars st')"
    unfolding pb using smooth_pos[OF M(5,6,1) ps(2)] .
  have "0 < c_rhos st' ! i" if "i < M" for i
  proof -
    from that pbl have "c_p_bars st' ! i \<in> set (c_p_bars st')" by simp
    with pbpos have p: "0 < c_p_bars st' ! i" by (simp add: list_all_iff)
    from that M(4) have "c_rhos st ! i \<in> set (c_rhos st)" by simp
    with M(7) have r: "0 < c_rhos st ! i" by (simp add: list_all_iff)
    from ru that M(4) have "c_rhos st' ! i = 2 / (c_p_bars st' ! i) \<or> c_rhos st' ! i = c_rhos st ! i"
      unfolding rate_updated_def by (auto split: if_splits)
    with p r show ?thesis by auto
  qed
  then have rpos: "list_all (\<lambda>r. 0 < r) (c_rhos st')"
    using lr by (simp add: list_all_length)
  have "list_all (\<lambda>p. 0 < p) (c_ps st')"
    using ps(2) by (auto simp: list_all_iff intro: less_le_trans[of 0 "1 / 100000"])
  moreover have "1 / (c_p_bars st' ! i) \<le> c_rhos st' ! i" if "i < M" for i
  proof -
    from that pbl have "c_p_bars st' ! i \<in> set (c_p_bars st')" by simp
    with pbpos have p: "0 < c_p_bars st' ! i" by (simp add: list_all_iff)
    from ru that M(4) have
      "if c_rhos st ! i < 1 / (c_p_bars st' ! i)
       then c_rhos st' ! i = 2 / (c_p_bars st' ! i)
       else c_rhos st' ! i = c_rhos st ! i"
      unfolding rate_updated_def by (auto split: if_splits)
    moreover have "1 / (c_p_bars st' ! i) \<le> 2 / (c_p_bars st' ! i)"
      using p by (simp add: divide_le_cancel)
    ultimately show ?thesis by (auto split: if_splits)
  qed
  ultimately show ?thesis using pbl pbpos lr le rpos by simp
qed

lemma corral_learn_inv:
  assumes inv: "corral_inv M st"
    and l: "corral_learn ops key ctx action reward probability st = Some (res, st')"
  shows "corral_inv M st'"
proof -
  from corral_learn_effect[OF inv l] have
    fr: "c_gamma st' = c_gamma st" "c_beta st' = c_beta st"
      "length (c_base_learners st') = length (c_base_learners st)"
    and ma: "c_base_actions st' = c_base_actions st \<or>
          c_base_actions st' = (c_base_actions st)(key := None)"
    and ch: "(c_ps st' = c_ps st \<and> c_p_bars st' = c_p_bars st \<and>
           c_rhos st' = c_rhos st \<and> c_etas st' = c_etas st) \<or>
          (res = None \<and> (\<exists>losses. length losses = M \<and> weights_updated losses st st'))"
    by blast+
  have maps: "\<forall>k as. c_base_actions st' k = Some as \<longrightarrow> length as = M"
    using ma inv by (auto simp: corral_inv_def split: if_splits)
  from ch show ?thesis
  proof
    assume "c_ps st' = c_ps st \<and> c_p_bars st' = c_p_bars st \<and>
           c_rhos st' = c_rhos st \<and> c_etas st' = c_etas st"
    with inv fr maps show ?thesis by (simp add: corral_inv_def)
  next
    assume "res = None \<and> (\<exists>losses. length losses = M \<and> weights_updated losses st st')"
    then obtain losses where ll: "length losses = M" and wu: "weights_updated losses st st'"
      by blast
    from weights_updated_inv[OF inv ll wu] weights_updated_ps[OF inv ll wu] inv fr maps
    show ?thesis by (simp add: corral_inv_def)
  qed
qed

lemma corral_predict_inv:
  assumes inv: "corral_inv M st"
    and p: "corral_predict ops choice key ctx actions st = (r, st')"
  shows "corral_inv M st'"
proof -
  from corral_predict_effect[OF p] have
    fr: "c_gamma st' = c_gamma st" "c_beta st' = c_beta st" "c_etas st' = c_etas st"
      "c_rhos st' = c_rhos st" "c_ps st' = c_ps st" "c_p_bars st' = c_p_bars st"
      "length (c_base_learners st') = length (c_base_learners st)"
    and ma: "case r of
            Inl e \<Rightarrow> c_base_actions st' = c_base_actions st \<and>
                     c_base_predicts st' = c_base_predicts st
          | Inr probs \<Rightarrow>
              (\<exists>bas bps. c_base_actions st' = (c_base_actions st)(key \<mapsto> bas) \<and>
                         c_base_predicts st' = (c_base_predicts st)(key \<mapsto> bps) \<and>
                         length bas = length (c_base_learners st) \<and>
                         probs = mixture (c_p_bars st) bas actions)"
    by blast+
  have maps: "\<forall>k as. c_base_actions st' k = Some as \<longrightarrow> length as = M"
    using ma inv by (cases r) (auto simp: corral_inv_def split: if_splits)
  with inv fr show ?thesis by (simp add: corral_inv_def)
qed

lemma corral_steps_inv:
  assumes "corral_steps ops choice st st'" "corral_inv M st"
  shows "corral_inv M st'"
  using assms
proof (induction rule: corral_steps.induct)
  case (steps_none st)
  then show ?case .
next
  case (steps_predict st st1 key ctx actions res st2)
  from corral_predict_inv[OF steps_predict.IH[OF steps_predict.prems] steps_predict.hyps(2)]
  show ?case .
next
  case (steps_learn st st1 key ctx action reward probability res st2)
  from corral_learn_inv[OF steps_learn.IH[OF steps_learn.prems] steps_learn.hyps(2)]
  show ?case .
qed

lemma corral_init_effect:
  assumes "corral_init bls eta T seed = Inr st"
  shows "bls \<noteq> [] \<and> c_base_learners st = bls \<and> c_eta_init st = eta \<and>
         c_etas st = replicate (length bls) eta \<and>
         c_rhos st = replicate (length bls) (real (2 * length bls)) \<and>
         c_ps st = replicate (length bls) (1 / real (length bls)) \<and>
         c_p_bars st = replicate (length bls) (1 / real (length bls)) \<and>
         c_random st = seed \<and> c_base_actions st = Map.empty \<and> c_base_predicts st = Map.empty \<and>
         horizon_recip T = Inr (c_gamma st) \<and>
         (\<exists>lg x. horizon_log T = Inr lg \<and> horizon_recip lg = Inr x \<and> c_beta st = 1 / exp x)"
  using assms
  by (auto simp: corral_init_def Let_def py_div_def split: sum.splits if_splits)

lemma corral_init_inv:
  assumes i: "corral_init bls eta T seed = Inr st"
    and T: "T = Infinity \<or> (\<exists>x. T = Finite x \<and> 1 < x)"
  shows "corral_inv (length bls) st"
proof -
  from corral_init_effect[OF i] obtain lg x where
    e: "bls \<noteq> []" "c_base_learners st = bls" "c_etas st = replicate (length bls) eta"
      "c_rhos st = replicate (length bls) (real (2 * length bls))"
      "c_ps st = replicate (length bls) (1 / real (length bls))"
      "c_p_bars st = replicate (length bls) (1 / real (length bls))"
      "c_base_actions st = Map.empty"
      "horizon_recip T = Inr (c_gamma st)"
      "horizon_log T = Inr lg" "horizon_recip lg = Inr x" "c_beta st = 1 / exp x"
    by blast
  have g: "0 \<le> c_gamma st \<and> c_gamma st \<le> 1 \<and> 0 \<le> x"
    using T
  proof
    assume "T = Infinity"
    with e(8,9,10) show ?thesis by (auto simp: horizon_recip_def horizon_log_def)
  next
    assume "\<exists>y. T = Finite y \<and> 1 < y"
    then obtain y where y: "T = Finite y" "1 < y" by blast
    with e(8) have "c_gamma st = 1 / y" by (auto simp: horizon_recip_def py_div_def split: if_splits)
    moreover from y e(9) have "lg = Finite (ln y)"
      by (auto simp: horizon_log_def py_log_def split: if_splits)
    with e(10) have "x = 1 / ln y" by (auto simp: horizon_recip_def py_div_def split: if_splits)
    moreover have "0 < ln y" using y(2) by simp
    ultimately show ?thesis using y(2) by simp
  qed
  then have "1 \<le> exp x" by simp
  then have b: "0 < c_beta st \<and> c_beta st \<le> 1" using e(11) by (simp add: divide_le_eq_1)
  from e(1) have "0 < length bls" by simp
  with e g b show ?thesis
    by (simp add: corral_inv_def list_all_iff)
qed

section \<open>Runs of the combinator on concrete inputs\<close>

lemma two_random_init:
  "corral_init [(), ()] eta Infinity script = Inr (two_random eta script)"
  by (simp add: corral_init_def horizon_recip_def horizon_log_def py_div_def two_random_def)

lemma two_random_predict:
  "corral_predict random_ops scripted_choice 0 () [0, 1] (two_random eta (0 # 1 # script)) =
     (Inr [1 / 2, 1 / 2], two_random_asked eta script)"
  by (simp add: corral_predict_def random_ops_def random_predict_def py_div_def py_index_def
        base_predict_of_def mixture_def two_random_def two_random_asked_def)

lemma one_random_init:
  "corral_init [()] eta Infinity script = Inr (one_random eta script)"
  by (simp add: corral_init_def horizon_recip_def horizon_log_def py_div_def one_random_def)

lemma one_random_predict:
  "corral_predict random_ops scripted_choice 0 () [0, 1] (one_random eta (0 # script)) =
     (Inr [1, 0], one_random_asked eta script)"
  by (simp add: corral_predict_def random_ops_def random_predict_def py_div_def py_index_def
        base_predict_of_def mixture_def one_random_def one_random_asked_def)

lemmas solve_defs = log_barrier_omd_def find_lmbda_def denom_zero_def py_min_def py_max_def
  boundary_root_def brackets_def newtons_zero_def weight_term_def

lemma find_lmbda_big:
  "find_lmbda [1 / 2, 1 / 2] [1000000, 1000000] [1, 0] = Some (Inr None)"
  by (simp add: solve_defs ev)

lemma find_lmbda_None_TypeError:
  assumes fl: "find_lmbda ps etas losses = Some (Inr None)" and ne: "ps \<noteq> []" "etas \<noteq> []"
  shows "log_barrier_omd ps etas losses = Some (Inl TypeError)"
proof -
  from fl obtain dz where dz: "comprehension denom_zero (zip ps (zip etas losses)) = Inr dz"
    by (auto simp: find_lmbda_def split: sum.splits)
  from fl dz have "losses \<noteq> []"
    by (auto simp: find_lmbda_def py_min_def split: sum.splits list.splits)
  with ne obtain p ps' eta etas' loss losses' where
    c: "ps = p # ps'" "etas = eta # etas'" "losses = loss # losses'"
    by (cases ps; cases etas; cases losses) auto
  from dz c have "p \<noteq> 0"
    by (auto simp: denom_zero_def py_div_def split: sum.splits if_splits)
  then have "comprehension (weight_term None) (zip ps (zip etas losses)) = Inl TypeError"
    unfolding c by (simp add: weight_term_def py_div_def)
  with fl show ?thesis by (simp add: log_barrier_omd_def)
qed

lemma two_random_learn_big:
  "corral_learn random_ops 0 () 0 0 1 (two_random_asked 1000000 script) =
     Some (Some TypeError, two_random 1000000 script)"
  using find_lmbda_None_TypeError[OF find_lmbda_big]
  by (simp add: corral_learn_def corral_losses_def py_div_def feedback_def random_ops_def
        random_learn_def mixture_update_def two_random_def two_random_asked_def)

lemma one_random_learn:
  "corral_learn random_ops 0 () 0 2 1 (one_random_asked eta script) =
     (if eta = 0 then Some (Some ZeroDivisionError, one_random eta script)
      else Some (None, one_random eta script))"
  by (simp add: corral_learn_def corral_losses_def py_div_def feedback_def random_ops_def
        random_learn_def mixture_update_def one_random_def one_random_asked_def solve_defs
        smooth_def py_index_def)

lemma two_random_learn_small:
  "corral_learn random_ops 0 () 0 0 1 (two_random_asked (1 / 10000) script) =
     Some (None, two_random_taught script)"
  by (simp add: corral_learn_def corral_losses_def py_div_def feedback_def random_ops_def
        random_learn_def mixture_update_def two_random_def two_random_asked_def solve_defs ev
        smooth_def py_index_def two_random_taught_def)

section \<open>Further properties\<close>

lemma mixture_update_maps:
  assumes "mixture_update losses st = Some (res, st')"
  shows "c_base_actions st' = c_base_actions st \<and> c_base_predicts st' = c_base_predicts st"
proof (cases "log_barrier_omd (c_ps st) (c_etas st) losses")
  case None
  with assms show ?thesis by (simp add: mixture_update_def)
next
  case (Some r)
  show ?thesis
  proof (cases r)
    case (Inl e)
    with Some assms show ?thesis by (auto simp: mixture_update_def)
  next
    case (Inr ps')
    show ?thesis
    proof (cases "smooth (c_gamma st) (length (c_base_learners st)) ps'")
      case (Inl e)
      with Some Inr assms show ?thesis by (auto simp: mixture_update_def)
    next
      case sm: (Inr pb)
      let ?st4 = "st\<lparr>c_ps := ps', c_p_bars := pb\<rparr>"
      from Some Inr sm assms
      have "rate_control [0..<length (c_base_learners st)] ?st4 = (res, st')"
        by (simp add: mixture_update_def)
      from rate_control_frame[OF this]
      have "st' = ?st4\<lparr>c_rhos := c_rhos st', c_etas := c_etas st'\<rparr>" by blast
      then have "c_base_actions st' = c_base_actions ?st4"
        "c_base_predicts st' = c_base_predicts ?st4"
        by (metis corral_learner.select_convs(10) corral_learner.surjective
              corral_learner.update_convs(5,6),
            metis corral_learner.select_convs(11) corral_learner.surjective
              corral_learner.update_convs(5,6))
      then show ?thesis by simp
    qed
  qed
qed

lemma corral_learn_pops:
  assumes bas: "c_base_actions st key = Some base_actions"
    and bps: "c_base_predicts st key = Some base_predicts"
    and l: "corral_learn ops key ctx action reward probability st = Some (res, st')"
  shows "c_base_actions st' = (c_base_actions st)(key := None) \<and>
         c_base_predicts st' = (c_base_predicts st)(key := None)"
proof (cases "corral_losses (1 - reward) probability action base_actions")
  case (Inl e)
  with l bas bps show ?thesis by (auto simp: corral_learn_def)
next
  case ls: (Inr losses)
  obtain r1 bls where la: "learn_all ops key ctx (c_base_learners st)
                      (feedback base_actions losses base_predicts) = (r1, bls)"
    by (cases "learn_all ops key ctx (c_base_learners st)
                      (feedback base_actions losses base_predicts)")
  show ?thesis
  proof (cases r1)
    case (Some e)
    with l bas bps ls la show ?thesis by (auto simp: corral_learn_def)
  next
    case None
    let ?st3 = "st\<lparr>c_base_actions := (c_base_actions st)(key := None),
                    c_base_predicts := (c_base_predicts st)(key := None),
                    c_base_learners := bls\<rparr>"
    from l bas bps ls la None have "mixture_update losses ?st3 = Some (res, st')"
      by (simp add: corral_learn_def)
    from mixture_update_maps[OF this] show ?thesis by simp
  qed
qed


lemma corral_losses_formula:
  "probability \<noteq> 0 \<Longrightarrow>
     corral_losses loss probability action base_actions =
       Inr (map (\<lambda>act. if act = action then loss / probability else 0) base_actions)"
  unfolding corral_losses_def
  by (intro comprehension_total) (simp add: py_div_def)


lemma epsilon_predict_empty: "epsilon_predict key ctx [] st = Inl ValueError"
  by (simp add: epsilon_predict_def max_value_def py_max_def)

lemma ucb_predict_empty: "ucb_predict ov key ctx [] st = (Inl ValueError, st)"
  by (simp add: ucb_predict_def max_value_def py_max_def)

lemma ucb_learn_first:
  "ucb_m st action = None \<Longrightarrow>
     ucb_learn ov key ctx action reward probability st =
       (None, st\<lparr>ucb_m := (ucb_m st)(action \<mapsto> reward), ucb_t := ucb_t st + 1,
                  ucb_s := (ucb_s st)(action := ucb_s st action + 1),
                  ucb_v := (ucb_v st)(action := ov_update ov (ucb_v st action) reward)\<rparr>)"
  by (simp add: ucb_learn_def)


section \<open>Rates and weights over a learner's life\<close>




lemma corral_steps_consts:
  assumes "corral_steps ops choice st st'" "corral_inv M st"
  shows "c_gamma st' = c_gamma st \<and> c_beta st' = c_beta st \<and> c_eta_init st' = c_eta_init st"
  using assms
proof (induction rule: corral_steps.induct)
  case (steps_none st)
  show ?case by simp
next
  case (steps_predict st st1 key ctx actions res st2)
  from corral_predict_effect[OF steps_predict.hyps(2)] steps_predict.IH[OF steps_predict.prems]
  show ?case by simp
next
  case (steps_learn st st1 key ctx action reward probability res st2)
  from corral_steps_inv[OF steps_learn.hyps(1) steps_learn.prems]
  have "corral_inv M st1" .
  from corral_learn_effect[OF this steps_learn.hyps(2)] steps_learn.IH[OF steps_learn.prems]
  show ?case by simp
qed


lemma corral_learn_default_horizon:
  assumes inv: "corral_inv M st" and g: "c_gamma st = 0" and b: "c_beta st = 1"
    and pb: "c_p_bars st = c_ps st"
    and l: "corral_learn ops key ctx action reward probability st = Some (res, st')"
  shows "c_p_bars st' = c_ps st' \<and> c_etas st' = c_etas st"
proof -
  from corral_learn_effect[OF inv l] have
    "(c_ps st' = c_ps st \<and> c_p_bars st' = c_p_bars st \<and>
           c_rhos st' = c_rhos st \<and> c_etas st' = c_etas st) \<or>
          (res = None \<and> (\<exists>losses. length losses = M \<and> weights_updated losses st st'))"
    by blast
  then show ?thesis
  proof
    assume "c_ps st' = c_ps st \<and> c_p_bars st' = c_p_bars st \<and>
           c_rhos st' = c_rhos st \<and> c_etas st' = c_etas st"
    with pb show ?thesis by simp
  next
    assume "res = None \<and> (\<exists>losses. length losses = M \<and> weights_updated losses st st')"
    then obtain losses where wu: "weights_updated losses st st'" by blast
    from wu g have 1: "c_p_bars st' = c_ps st'" by (simp add: weights_updated_def)
    from wu have le: "length (c_etas st') = length (c_etas st)"
      and lr: "length (c_rhos st') = length (c_rhos st)"
      and ru: "rate_updated st st'" by (simp_all add: weights_updated_def)
    from inv have "length (c_rhos st) = length (c_etas st)" by (simp add: corral_inv_def)
    with ru b have "c_etas st' ! i = c_etas st ! i" if "i < length (c_etas st)" for i
      using that by (auto simp: rate_updated_def split: if_splits)
    with le have "c_etas st' = c_etas st" by (intro nth_equalityI) simp_all
    with 1 show ?thesis by simp
  qed
qed

lemma corral_steps_default_horizon:
  assumes "corral_steps ops choice st st'" "corral_inv M st" "c_gamma st = 0" "c_beta st = 1"
    "c_p_bars st = c_ps st"
  shows "c_p_bars st' = c_ps st' \<and> c_etas st' = c_etas st"
  using assms
proof (induction rule: corral_steps.induct)
  case (steps_none st)
  then show ?case by simp
next
  case (steps_predict st st1 key ctx actions res st2)
  from corral_predict_effect[OF steps_predict.hyps(2)] steps_predict.IH[OF steps_predict.prems]
  show ?case by simp
next
  case (steps_learn st st1 key ctx action reward probability res st2)
  from corral_steps_inv[OF steps_learn.hyps(1) steps_learn.prems(1)]
  have inv1: "corral_inv M st1" .
  from corral_steps_consts[OF steps_learn.hyps(1) steps_learn.prems(1)] steps_learn.prems
  have c: "c_gamma st1 = 0" "c_beta st1 = 1" by simp_all
  from steps_learn.IH[OF steps_learn.prems]
  have IH: "c_p_bars st1 = c_ps st1" "c_etas st1 = c_etas st" by simp_all
  from corral_learn_default_horizon[OF inv1 c IH(1) steps_learn.hyps(2)] IH(2)
  show ?case by simp
qed








section \<open>The warm-up of UcbTunedLearner\<close>

lemma ucb_learn_init_a:
  "ucb_init_a (snd (ucb_learn ov key ctx action reward probability st)) = ucb_init_a st"
  by (simp add: ucb_learn_def split: option.splits sum.splits)

lemma ucb_predict_warm_up:
  "ucb_init_a st < length actions \<Longrightarrow>
     ucb_predict ov key ctx actions st =
       (Inr (map (\<lambda>i. if i = ucb_init_a st then 1 else 0) [0..<length actions]),
        st\<lparr>ucb_init_a := ucb_init_a st + 1\<rparr>)"
  by (simp add: ucb_predict_def Let_def)

lemma ucb_run_init_a:
  assumes "list_all (on_actions n) cs" "ucb_init_a st + predict_calls cs \<le> n"
  shows "ucb_init_a (ucb_run ov cs st) = ucb_init_a st + predict_calls cs"
  using assms
proof (induction cs arbitrary: st)
  case Nil
  then show ?case by simp
next
  case (Cons c cs)
  show ?case
  proof (cases c)
    case (Predict key ctx actions)
    with Cons.prems have a: "length actions = n" "ucb_init_a st < length actions" by simp_all
    let ?st = "st\<lparr>ucb_init_a := ucb_init_a st + 1\<rparr>"
    from ucb_predict_warm_up[OF a(2), of ov key ctx] have "snd (ucb_predict ov key ctx actions st) = ?st" by simp
    moreover from Cons.prems Predict have "list_all (on_actions n) cs"
      "ucb_init_a ?st + predict_calls cs \<le> n" by simp_all
    from Cons.IH[OF this] have "ucb_init_a (ucb_run ov cs ?st) = ucb_init_a ?st + predict_calls cs" .
    ultimately show ?thesis using Predict by simp
  next
    case (Learn key ctx action reward probability)
    let ?st = "snd (ucb_learn ov key ctx action reward probability st)"
    from Cons.prems Learn have "list_all (on_actions n) cs"
      "ucb_init_a ?st + predict_calls cs \<le> n" by (simp_all add: ucb_learn_init_a)
    from Cons.IH[OF this] Learn show ?thesis by (simp add: ucb_learn_init_a)
  qed
qed

lemma ucb_init_a_init: "ucb_init_a (ucb_init ov) = 0"
  by (simp add: ucb_init_def)


section \<open>The claims\<close>

subsection \<open>The Newton search\<close>




subsection \<open>A solve that finds no root\<close>

text \<open>
  C1. The claim: when no bracket yields a root, \<^verbatim>\<open>learn\<close> fails with an explicit
  OptimizationDivergence error. The module defines no such error. A fresh combinator over
  two \<^verbatim>\<open>RandomLearner\<close>s with \<open>eta = 1000000\<close> is asked once and taught reward \<open>0\<close> with
  probability \<open>1\<close> for the action its first learner drew: both brackets are rejected by the
  sign test, \<^verbatim>\<open>lmbda\<close> stays \<^verbatim>\<open>None\<close>, the diagnostics are printed, and the call ends in the
  \<^verbatim>\<open>TypeError\<close> that \<^verbatim>\<open>loss-lmbda\<close> raises.
\<close>

theorem root_search_failure_is_a_type_error:
  "corral_init [(), ()] 1000000 Infinity [0, 1] = Inr (two_random 1000000 [0, 1]) \<and>
   corral_predict random_ops scripted_choice 0 () [0, 1] (two_random 1000000 [0, 1]) =
     (Inr [1 / 2, 1 / 2], two_random_asked 1000000 []) \<and>
   find_lmbda [1 / 2, 1 / 2] [1000000, 1000000] [1, 0] = Some (Inr None) \<and>
   corral_learn random_ops 0 () 0 0 1 (two_random_asked 1000000 []) =
     Some (Some TypeError, two_random 1000000 [])"
  using two_random_init[of 1000000 "[0, 1]"] two_random_predict[of 1000000 "[]"]
    find_lmbda_big two_random_learn_big
  by simp


text \<open>
  C1, as the code has it. When the search for \<^verbatim>\<open>lmbda\<close> ends with \<^verbatim>\<open>None\<close>, the solve
  raises \<^verbatim>\<open>TypeError\<close> and returns no weights, and the update of the mixture leaves the
  learner as it was: no stale or unnormalised vector is stored.
\<close>

theorem solve_without_root_raises:
  assumes "find_lmbda (c_ps st) (c_etas st) losses = Some (Inr None)"
    and "c_ps st \<noteq> []" and "c_etas st \<noteq> []"
  shows "log_barrier_omd (c_ps st) (c_etas st) losses = Some (Inl TypeError) \<and>
         mixture_update losses st = Some (Some TypeError, st)"
  using find_lmbda_None_TypeError[OF assms] by (simp add: mixture_update_def)


theorem solve_without_root_raises_witness:
  "find_lmbda (c_ps (two_random 1000000 [])) (c_etas (two_random 1000000 [])) [1, 0] = Some (Inr None) \<and>
   c_ps (two_random 1000000 []) \<noteq> [] \<and> c_etas (two_random 1000000 []) \<noteq> [] \<and>
   log_barrier_omd (c_ps (two_random 1000000 [])) (c_etas (two_random 1000000 [])) [1, 0] =
     Some (Inl TypeError) \<and>
   mixture_update [1, 0] (two_random 1000000 []) = Some (Some TypeError, two_random 1000000 [])"
proof -
  have a: "find_lmbda (c_ps (two_random 1000000 [])) (c_etas (two_random 1000000 [])) [1, 0] =
      Some (Inr None)"
    using find_lmbda_big by (simp add: two_random_def)
  have b: "c_ps (two_random 1000000 []) \<noteq> []" "c_etas (two_random 1000000 []) \<noteq> []"
    by (simp_all add: two_random_def)
  from solve_without_root_raises[OF a b] a b show ?thesis by blast
qed


subsection \<open>The rewards handed to the base learners\<close>

text \<open>
  C3. The loss of a base learner is \<open>loss/probability\<close> when its action is the realised one
  and \<open>0\<close> otherwise, as claimed; but the reward \<open>1 - loss_i\<close> handed down is not kept in
  \<open>[0,1]\<close>, although the comment on that line says the learners assume it. With reward \<open>0\<close>
  and probability \<open>1/2\<close> the loss of the learner that drew the realised action \<open>0\<close> is \<open>2\<close>,
  and it is taught the reward \<open>-1\<close>.
\<close>

theorem importance_weighted_reward_below_zero:
  "corral_losses (1 - 0) (1 / 2) (0::nat) [0, 1] = Inr [2, 0] \<and>
   feedback [0::nat, 1] [2, 0] [1 / 2, 1 / 2] = [(0, - 1, 1 / 2), (1, 1, 1 / 2)]"
  by (simp add: corral_losses_formula feedback_def)


subsection \<open>The per-key maps\<close>

text \<open>
  C5. A \<^verbatim>\<open>learn\<close> for a key with no stored entry raises \<^verbatim>\<open>KeyError\<close> and leaves the
  learner as it was. When both maps are empty, a \<^verbatim>\<open>predict\<close> that returns followed by a
  \<^verbatim>\<open>learn\<close> for the same key that returns or raises leaves both maps empty again, and a
  second \<^verbatim>\<open>learn\<close> for that key raises \<^verbatim>\<open>KeyError\<close> and changes nothing.
\<close>

theorem corral_key_round_trip:
  "(c_base_actions st key = None \<longrightarrow>
      corral_learn ops key ctx action reward probability st = Some (Some KeyError, st)) \<and>
   (c_base_actions st = Map.empty \<and> c_base_predicts st = Map.empty \<and>
    corral_predict ops choice key ctx actions st = (Inr probs, st1) \<and>
    corral_learn ops key ctx action reward probability st1 = Some (res, st2) \<longrightarrow>
      c_base_actions st2 = Map.empty \<and> c_base_predicts st2 = Map.empty \<and>
      corral_learn ops key ctx action' reward' probability' st2 = Some (Some KeyError, st2))"
proof -
  have 1: "corral_learn ops key ctx action reward probability st = Some (Some KeyError, st)"
    if "c_base_actions st key = None"
    using that by (rule corral_learn_unknown_key)
  have 2: "c_base_actions st2 = Map.empty \<and> c_base_predicts st2 = Map.empty \<and>
      corral_learn ops key ctx action' reward' probability' st2 = Some (Some KeyError, st2)"
    if e: "c_base_actions st = Map.empty" "c_base_predicts st = Map.empty"
      and p: "corral_predict ops choice key ctx actions st = (Inr probs, st1)"
      and l: "corral_learn ops key ctx action reward probability st1 = Some (res, st2)"
  proof -
    from corral_predict_effect[OF p] e obtain bas bps where
      m: "c_base_actions st1 = [key \<mapsto> bas]" "c_base_predicts st1 = [key \<mapsto> bps]"
      by auto
    from corral_learn_pops[OF _ _ l, of bas bps] m
    have m2: "c_base_actions st2 = Map.empty" "c_base_predicts st2 = Map.empty" by simp_all
    then have "corral_learn ops key ctx action' reward' probability' st2 = Some (Some KeyError, st2)"
      by (simp add: corral_learn_unknown_key)
    with m2 show ?thesis by blast
  qed
  from 1 2 show ?thesis by blast
qed


theorem corral_key_round_trip_witness:
  "c_base_actions (one_random 1 [0]) (0::nat) = None \<and>
   corral_learn random_ops 0 () 0 1 1 (one_random 1 [0]) = Some (Some KeyError, one_random 1 [0]) \<and>
   corral_predict random_ops scripted_choice 0 () [0, 1] (one_random 1 [0]) =
     (Inr [1, 0], one_random_asked 1 []) \<and>
   corral_learn random_ops 0 () 0 2 1 (one_random_asked 1 []) = Some (None, one_random 1 []) \<and>
   c_base_actions (one_random 1 []) = Map.empty \<and> c_base_predicts (one_random 1 []) = Map.empty \<and>
   corral_learn random_ops 0 () 0 1 1 (one_random 1 []) = Some (Some KeyError, one_random 1 [])"
proof -
  have e: "c_base_actions (one_random 1 [0]) = Map.empty"
    "c_base_predicts (one_random 1 [0]) = Map.empty"
    by (simp_all add: one_random_def)
  have p: "corral_predict random_ops scripted_choice 0 () [0, 1] (one_random 1 [0]) =
     (Inr [1, 0], one_random_asked 1 [])" by (rule one_random_predict)
  have l: "corral_learn random_ops 0 () 0 2 1 (one_random_asked 1 []) = Some (None, one_random 1 [])"
    using one_random_learn[of 1 "[]"] by simp
  have l0: "corral_learn random_ops 0 () 0 1 1 (one_random 1 [0]) = Some (Some KeyError, one_random 1 [0])"
    using corral_key_round_trip[of "one_random 1 [0]" 0 random_ops "()" 0 1 1] e by simp
  from corral_key_round_trip[of "one_random 1 [0]" 0 random_ops "()" 0 2 1 scripted_choice
      "[0, 1]" "[1, 0]" "one_random_asked 1 []" None "one_random 1 []" 0 1 1] e p l l0
  show ?thesis by simp
qed

subsection \<open>Arguments outside their range\<close>

text \<open>
  C8. The claim: a reward outside \<open>[0,1]\<close>, an empty action list or mismatched lengths
  fail fast with an InvalidArgument condition. Nothing validates an argument. A combinator
  over one \<^verbatim>\<open>RandomLearner\<close> is taught the reward \<open>2\<close>: the call returns normally.
\<close>

theorem reward_outside_unit_interval_is_accepted:
  "corral_init [()] 1 Infinity [0] = Inr (one_random 1 [0]) \<and>
   corral_predict random_ops scripted_choice 0 () [0, 1] (one_random 1 [0]) =
     (Inr [1, 0], one_random_asked 1 []) \<and>
   corral_learn random_ops 0 () 0 2 1 (one_random_asked 1 []) = Some (None, one_random 1 [])"
  using one_random_init[of 1 "[0]"] one_random_predict[of 1 "[]"] one_random_learn[of 1 "[]"]
  by simp


text \<open>
  C8, as the code has it. An empty action list makes \<^verbatim>\<open>RandomLearner.predict\<close> raise
  \<^verbatim>\<open>ZeroDivisionError\<close> and the \<^verbatim>\<open>predict\<close> of \<^verbatim>\<open>EpsilonLearner\<close> and \<^verbatim>\<open>UcbTunedLearner\<close>
  raise \<^verbatim>\<open>ValueError\<close>, the interpreter's own exceptions. Any reward whatever is accepted
  and used as it is: a fresh \<^verbatim>\<open>UcbTunedLearner\<close> stores it as the mean of the action, and
  the combinator (here with probability \<open>1\<close>) hands a base learner that drew the realised
  action the same reward back.
\<close>

theorem no_argument_is_validated:
  "random_predict key ctx [] = Inl ZeroDivisionError \<and>
   epsilon_predict key ctx' [] est = Inl ValueError \<and>
   ucb_predict ov key ctx [] ust = (Inl ValueError, ust) \<and>
   fst (ucb_learn ov key ctx action reward probability (ucb_init ov)) = None \<and>
   ucb_m (snd (ucb_learn ov key ctx action reward probability (ucb_init ov))) action = Some reward \<and>
   corral_losses (1 - reward) 1 action [action] = Inr [1 - reward] \<and>
   feedback [action] [1 - reward] [P] = [(action, reward, P)]"
  by (simp add: random_predict_def py_div_def epsilon_predict_empty ucb_predict_empty
        ucb_learn_first ucb_init_def corral_losses_formula feedback_def)

subsection \<open>Rate control\<close>




subsection \<open>Equal losses\<close>




subsection \<open>The default horizon\<close>

text \<open>
  C10. With the default horizon \<^verbatim>\<open>math.inf\<close> the constructor sets \<open>gamma = 0\<close> and
  \<open>beta = 1\<close>, and in every state the learner can reach the smoothed weights equal the
  weights and every rate is still the initial \<open>eta\<close>.
\<close>

theorem default_horizon_constants:
  assumes init: "corral_init bls eta Infinity seed = Inr st0"
    and reach: "corral_steps ops choice st0 st"
  shows "c_gamma st0 = 0 \<and> c_beta st0 = 1 \<and> c_gamma st = 0 \<and> c_beta st = 1 \<and>
         c_p_bars st = c_ps st \<and> c_etas st = replicate (length bls) eta"
proof -
  from corral_init_effect[OF init] obtain lg x where
    e: "c_etas st0 = replicate (length bls) eta" "c_p_bars st0 = c_ps st0"
      "horizon_recip Infinity = Inr (c_gamma st0)"
      "horizon_log Infinity = Inr lg" "horizon_recip lg = Inr x" "c_beta st0 = 1 / exp x"
    by auto
  from e(3) have g: "c_gamma st0 = 0" by (simp add: horizon_recip_def)
  from e(4,5) have "x = 0" by (auto simp: horizon_log_def horizon_recip_def)
  with e(6) have b: "c_beta st0 = 1" by simp
  have inv0: "corral_inv (length bls) st0" using corral_init_inv[OF init] by simp
  from corral_steps_consts[OF reach inv0] g b
  have c: "c_gamma st = 0" "c_beta st = 1" by simp_all
  from corral_steps_default_horizon[OF reach inv0 g b e(2)] e(1) g b c
  show ?thesis by simp
qed


theorem default_horizon_constants_witness:
  "corral_init [(), ()] (1 / 10000) Infinity [0, 1] = Inr (two_random (1 / 10000) [0, 1]) \<and>
   corral_steps (random_ops :: (unit, nat, unit, nat) learner_ops) scripted_choice
     (two_random (1 / 10000) [0, 1]) (two_random_taught []) \<and>
   c_gamma (two_random (1 / 10000) [0, 1]) = 0 \<and> c_beta (two_random (1 / 10000) [0, 1]) = 1 \<and>
   c_gamma (two_random_taught []) = 0 \<and> c_beta (two_random_taught []) = 1 \<and>
   c_p_bars (two_random_taught []) = c_ps (two_random_taught []) \<and>
   c_etas (two_random_taught []) = replicate (length [(), ()]) (1 / 10000)"
proof -
  let ?e = "1 / 10000 :: real"
  have init: "corral_init [(), ()] ?e Infinity [0, 1] = Inr (two_random ?e [0, 1])"
    by (rule two_random_init)
  have l: "corral_learn random_ops 0 () 0 0 1 (two_random_asked ?e []) = Some (None, (two_random_taught []))"
    by (rule two_random_learn_small)
  have reach: "corral_steps (random_ops :: (unit, nat, unit, nat) learner_ops) scripted_choice
      (two_random ?e [0, 1]) (two_random_taught [])"
    using steps_learn[OF steps_predict[OF steps_none two_random_predict[of ?e "[]"]] l] .
  from default_horizon_constants[OF init reach] init reach show ?thesis by blast
qed

subsection \<open>The warm-up of UcbTunedLearner\<close>

text \<open>
  C9. On a fresh \<^verbatim>\<open>UcbTunedLearner\<close>, after any calls of which fewer than \<open>len(actions)\<close>
  were \<^verbatim>\<open>predict\<close> (each on as many actions, with any \<^verbatim>\<open>learn\<close> calls in between), the
  next \<^verbatim>\<open>predict\<close> returns the one-hot vector of the index that equals the number of
  earlier \<^verbatim>\<open>predict\<close> calls: the \<open>k\<close>-th call selects index \<open>k-1\<close>. The result is that of the
  warm-up branch and only \<^verbatim>\<open>_init_a\<close> changes: no mean, count or variance is read.
\<close>

theorem ucb_warm_up_in_index_order:
  assumes "list_all (on_actions (length actions)) cs"
    and "predict_calls cs < length actions"
  shows "ucb_predict ov key ctx actions (ucb_run ov cs (ucb_init ov)) =
           (Inr (map (\<lambda>i. if i = predict_calls cs then 1 else 0) [0..<length actions]),
            (ucb_run ov cs (ucb_init ov))\<lparr>ucb_init_a := predict_calls cs + 1\<rparr>)"
proof -
  have "ucb_init_a (ucb_run ov cs (ucb_init ov)) = predict_calls cs"
    using ucb_run_init_a[OF assms(1), where st = "ucb_init ov" and ov = ov] assms(2)
    by (simp add: ucb_init_a_init)
  with ucb_predict_warm_up[of "ucb_run ov cs (ucb_init ov)" actions ov key ctx] assms(2)
  show ?thesis by simp
qed


theorem ucb_warm_up_in_index_order_witness:
  "list_all (on_actions (length [5, 6, 7 :: nat]))
     [Predict (0::nat) () [5, 6, 7], Learn 0 () 5 1 1, Predict 1 () [5, 6, 7], Learn 1 () 6 0 1] \<and>
   predict_calls [Predict (0::nat) () [5, 6, 7 :: nat], Learn 0 () 5 1 1, Predict 1 () [5, 6, 7],
                  Learn 1 () 6 0 1] < length [5, 6, 7 :: nat] \<and>
   fst (ucb_predict no_variance (2::nat) () [5, 6, 7 :: nat]
          (ucb_run no_variance
             [Predict (0::nat) () [5, 6, 7], Learn 0 () 5 1 1, Predict 1 () [5, 6, 7],
              Learn 1 () 6 0 1]
             (ucb_init no_variance))) = Inr [0, 0, 1]"
proof -
  let ?cs = "[Predict (0::nat) () [5, 6, 7 :: nat], Learn 0 () 5 1 1, Predict 1 () [5, 6, 7],
              Learn 1 () 6 0 1]"
  have a: "list_all (on_actions (length [5, 6, 7 :: nat])) ?cs" by simp
  have b: "predict_calls ?cs < length [5, 6, 7 :: nat]" by simp
  have c: "map (\<lambda>i. if i = predict_calls ?cs then 1 else 0) [0..<length [5, 6, 7 :: nat]]
             = [0, 0, 1 :: real]"
    by (simp add: upt_rec)
  from ucb_warm_up_in_index_order[OF a b, of no_variance "2::nat" "()"] a b c
  show ?thesis by simp
qed

end
